theory Spec2Isabelle
  imports Complex_Main "HOL-Library.Sublist"
begin

section \<open>Errors raised by the Python code\<close>

text \<open>
  Every \<^verbatim>\<open>raise\<close> of the modelled functions, and every failure of a library call
  that a modelled path can reach, is a value of this type.
  \<^item> \<open>ValueError\<close>: the explicit \<^verbatim>\<open>raise ValueError\<close> of the samplers and the tokenizer,
    Python's "too many values to unpack", and the failed conversion of an argument to a
    tensor of the element type an operation asks for, when the operation is executed
    eagerly.
  \<^item> \<open>TypeError\<close>: an arithmetic operator applied to \<^verbatim>\<open>None\<close>, and an argument of the
    wrong element type given to an operation while \<^verbatim>\<open>tf.function\<close> traces its caller.
  \<^item> \<open>InvalidArgumentError\<close>: an index outside a tensor in a gather or scatter, a shape
    that does not broadcast.
  \<^item> \<open>FailedPreconditionError\<close>: a hash table initialised with one key twice.
  \<^item> \<open>TensorTruthError\<close>: a tensor used as a Python truth value (\<^verbatim>\<open>x or ()\<close>).
\<close>

datatype py_error =
  ValueError | TypeError | InvalidArgumentError | FailedPreconditionError | TensorTruthError

section \<open>layers.py: the attention cache update\<close>

text \<open>
  A cache update index is either a dense tensor of shape \<open>[batch, k]\<close> (the stepping loop
  passes \<open>[batch, 1]\<close>) or a ragged tensor with one list of positions per batch row
  (priming). Both are kept as the list of their rows; the constructor records which of
  the two Python types the value has, because the source branches on it.
\<close>

datatype cache_index = Tensor "int list list" | RaggedTensor "int list list"

text \<open>\<^verbatim>\<open>if isinstance(index, tf.Tensor): index = tf.RaggedTensor.from_tensor(index)\<close>\<close>

fun from_tensor :: "cache_index \<Rightarrow> int list list" where
  "from_tensor (Tensor t) = t"
| "from_tensor (RaggedTensor r) = r"

definition row_lengths :: "'a list list \<Rightarrow> nat list" where
  "row_lengths rows = map length rows"

definition flat_values :: "'a list list \<Rightarrow> 'a list" where
  "flat_values rows = concat rows"

text \<open>\<^verbatim>\<open>value_rowids()\<close>: the row number of every flat value, row \<open>b\<close> repeated once per
  value of row \<open>b\<close>.\<close>

definition value_rowids :: "'a list list \<Rightarrow> nat list" where
  "value_rowids rows =
     concat (map (\<lambda>(b, n). replicate n b) (enumerate 0 (row_lengths rows)))"

text \<open>\<^verbatim>\<open>tf.ragged.range(lengths)\<close>: row \<open>b\<close> is \<open>0, 1, ..., lengths[b] - 1\<close>.\<close>

definition ragged_range :: "nat list \<Rightarrow> int list list" where
  "ragged_range ls = map (\<lambda>n. map int [0..<n]) ls"

text \<open>
  \<^verbatim>\<open>tf.gather_nd(update, gather_index)\<close> on the two leading axes: the entry of \<open>update\<close>
  at \<open>(row, rank)\<close> for every index pair, in order. An entry is whatever the trailing
  axes hold (here the \<open>[heads, head_dim]\<close> block of one position), so the element type
  is a parameter. An index outside the tensor is an error (the CPU kernel's behaviour).
\<close>

fun gather_nd :: "'a list list \<Rightarrow> (nat \<times> int) list \<Rightarrow> py_error + 'a list" where
  "gather_nd u [] = Inr []"
| "gather_nd u ((b, r) # is) =
     (if b < length u \<and> 0 \<le> r \<and> nat r < length (u ! b)
      then (case gather_nd u is of
              Inl e \<Rightarrow> Inl e
            | Inr vs \<Rightarrow> Inr (u ! b ! nat r # vs))
      else Inl InvalidArgumentError)"

text \<open>
  \<^verbatim>\<open>keras.ops.scatter_update(cache, scatter_index, update)\<close>: the values are written one
  after the other at their \<open>(row, position)\<close>; an index outside the cache, or a number
  of values different from the number of indices, is an error.
\<close>

fun scatter_update :: "'a list list \<Rightarrow> (nat \<times> int) list \<Rightarrow> 'a list \<Rightarrow> py_error + 'a list list" where
  "scatter_update cache [] [] = Inr cache"
| "scatter_update cache ((b, p) # is) (v # vs) =
     (if b < length cache \<and> 0 \<le> p \<and> nat p < length (cache ! b)
      then scatter_update (cache[b := (cache ! b)[nat p := v]]) is vs
      else Inl InvalidArgumentError)"
| "scatter_update cache _ _ = Inl InvalidArgumentError"

text \<open>
  \<^verbatim>\<open>_cache_update(cache, index, update)\<close>. \<^verbatim>\<open>keras.ops.stack([a, b], axis=1)\<close> of two
  vectors of one length is the list of their pairs.
\<close>

definition cache_update :: "'a list list \<Rightarrow> cache_index \<Rightarrow> 'a list list \<Rightarrow> py_error + 'a list list" where
  "cache_update cache index update =
     (let index = from_tensor index;
          gather_index = zip (value_rowids index) (flat_values (ragged_range (row_lengths index)));
          scatter_index = zip (value_rowids index) (flat_values index)
      in case gather_nd update gather_index of
           Inl e \<Rightarrow> Inl e
         | Inr update \<Rightarrow> scatter_update cache scatter_index update)"

section \<open>tokenizers.py\<close>

subsection \<open>Constants and Python values\<close>

definition PAD_TOKEN :: string where "PAD_TOKEN = ''[pad]''"
definition PAD_TOKEN_ID :: int where "PAD_TOKEN_ID = 0"
definition OOV_TOKEN :: string where "OOV_TOKEN = ''[oov]''"
definition OOV_TOKEN_ID :: int where "OOV_TOKEN_ID = 1"
definition BOS_TOKEN :: string where "BOS_TOKEN = ''[bos]''"
definition EOS_TOKEN :: string where "EOS_TOKEN = ''[eos]''"

text \<open>
  The constructor argument \<^verbatim>\<open>sequence_length\<close> is annotated \<^verbatim>\<open>int\<close> with default
  \<^verbatim>\<open>None\<close>, and the constructor itself tests \<^verbatim>\<open>isinstance(sequence_length, int)\<close>, so
  the values it can receive are kept apart: \<^verbatim>\<open>None\<close>, a bool (a subclass of int in
  Python), an int, a float and a string.
\<close>

datatype py_value = PyNone | PyBool bool | PyInt int | PyFloat real | PyStr string

text \<open>Python's truth value of an object, as \<^verbatim>\<open>if x\<close>, \<^verbatim>\<open>not x\<close> and \<^verbatim>\<open>x and y\<close> use it.\<close>

fun truthy :: "py_value \<Rightarrow> bool" where
  "truthy PyNone = False"
| "truthy (PyBool b) = b"
| "truthy (PyInt n) = (n \<noteq> 0)"
| "truthy (PyFloat x) = (x \<noteq> 0)"
| "truthy (PyStr s) = (s \<noteq> [])"

fun isinstance_int :: "py_value \<Rightarrow> bool" where
  "isinstance_int (PyBool b) = True"
| "isinstance_int (PyInt n) = True"
| "isinstance_int v = False"

text \<open>The truth value of an attribute that is \<^verbatim>\<open>None\<close> or a string.\<close>

fun str_truthy :: "string option \<Rightarrow> bool" where
  "str_truthy None = False"
| "str_truthy (Some s) = (s \<noteq> [])"

text \<open>\<^verbatim>\<open>x or ''\<close> for an attribute that is \<^verbatim>\<open>None\<close> or a string.\<close>

fun or_empty :: "string option \<Rightarrow> string" where
  "or_empty None = []"
| "or_empty (Some s) = s"

subsection \<open>Effects\<close>

text \<open>
  The work a call does, in the order it does it: building a vocabulary and its lookup
  tables, tokenizing a batch, the priming forward pass, one decode step of the
  generation loop, detokenizing. A function with effects returns its result (or the
  error it raised) together with the events that happened before it returned or raised.
\<close>

datatype event = CreateVocab | CreateLookupTables | Tokenize | Prime | DecodeStep | Detokenize

type_synonym 'a io = "(py_error + 'a) \<times> event list"

subsection \<open>Tokenizer\<close>

record tokenizer =
  sequence_length :: py_value
  padding_mode :: string
  pad_token :: string
  bos_token :: "string option"
  eos_token :: "string option"
  oov_token :: "string option"
  sep_token :: "string option"
  pad_token_id :: int
  oov_token_id :: int
  bos_token_id :: "int option"
  eos_token_id :: "int option"
  special_tokens :: "string list"
  vocabulary :: "string list option"
  lookup_table :: "(string list \<times> int) option"
  lookup_table_reverse :: "(string list \<times> string) option"

text \<open>The arguments of \<^verbatim>\<open>Tokenizer.__init__\<close>, and their defaults.\<close>

record tokenizer_args =
  arg_vocabulary :: "string list option"
  arg_sequence_length :: py_value
  arg_add_bos :: bool
  arg_add_eos :: bool
  arg_oov_token :: "string option"
  arg_sep_token :: "string option"
  arg_padding_mode :: string

definition default_args :: tokenizer_args where
  "default_args = \<lparr> arg_vocabulary = None, arg_sequence_length = PyNone, arg_add_bos = False,
     arg_add_eos = False, arg_oov_token = Some OOV_TOKEN, arg_sep_token = None,
     arg_padding_mode = ''right'' \<rparr>"

text \<open>
  \<^verbatim>\<open>_create_vocab\<close> for a vocabulary passed to the constructor. The constructor inserts
  the tokens into a hash table with the counts \<open>n, n - 1, ..., 1\<close> (a token listed twice
  keeps the count of its last occurrence), \<^verbatim>\<open>_create_vocab\<close> removes the special
  tokens, sorts by descending count and puts the special tokens in front. Descending
  count is the order of the last occurrences, which is what \<open>remdups\<close> keeps.
\<close>

definition create_vocab :: "string list \<Rightarrow> string list \<Rightarrow> string list" where
  "create_vocab special vocab = special @ filter (\<lambda>t. t \<notin> set special) (remdups vocab)"

text \<open>
  \<^verbatim>\<open>_create_lookup_tables\<close>: two static hash tables, from token to id (default: the
  out-of-vocabulary id) and from id to token (default: the out-of-vocabulary token). A
  table cannot be built with a default of \<^verbatim>\<open>None\<close> nor from a key that occurs twice.
  A table is kept as the vocabulary list, the id of a token being its position, with
  the table's default.
\<close>

definition create_lookup_tables ::
  "string option \<Rightarrow> int \<Rightarrow> string list \<Rightarrow> py_error + (string list \<times> int) \<times> (string list \<times> string)" where
  "create_lookup_tables oov oov_id vocab =
     (case oov of
        None \<Rightarrow> Inl ValueError
      | Some t \<Rightarrow> if \<not> distinct vocab then Inl FailedPreconditionError
                 else Inr ((vocab, oov_id), (vocab, t)))"

text \<open>
  \<^verbatim>\<open>Tokenizer.__init__\<close>. Line 52 of the source,
  \<^verbatim>\<open>self.eos_token_id -= 1 if not self.bos_token else 0\<close>, subtracts an int from
  \<^verbatim>\<open>self.eos_token_id\<close>, which is \<^verbatim>\<open>None\<close> when there is no end token: a TypeError.
\<close>

definition Tokenizer_init :: "tokenizer_args \<Rightarrow> tokenizer io" where
  "Tokenizer_init a =
     (if truthy (arg_sequence_length a) \<and> \<not> isinstance_int (arg_sequence_length a)
      then (Inl ValueError, [])
      else
        let bos = (if arg_add_bos a then Some BOS_TOKEN else None);
            eos = (if arg_add_eos a then Some EOS_TOKEN else None);
            bos_id = (if str_truthy bos then Some 2 else None);
            eos_id0 = (if str_truthy eos then Some (3 :: int) else None)
        in case eos_id0 of
             None \<Rightarrow> (Inl TypeError, [])
           | Some e \<Rightarrow>
               let eos_id = e - (if \<not> str_truthy bos then 1 else 0);
                   special = [PAD_TOKEN]
                     @ (if str_truthy (arg_oov_token a) then [the (arg_oov_token a)] else [])
                     @ (if str_truthy bos then [the bos] else [])
                     @ (if str_truthy eos then [the eos] else []);
                   tk = \<lparr> sequence_length = arg_sequence_length a,
                          padding_mode = (if arg_padding_mode a = ''left'' then ''left'' else ''right''),
                          pad_token = PAD_TOKEN, bos_token = bos, eos_token = eos,
                          oov_token = arg_oov_token a, sep_token = arg_sep_token a,
                          pad_token_id = PAD_TOKEN_ID, oov_token_id = OOV_TOKEN_ID,
                          bos_token_id = bos_id, eos_token_id = Some eos_id,
                          special_tokens = special, vocabulary = None,
                          lookup_table = None, lookup_table_reverse = None \<rparr>
               in (case arg_vocabulary a of
                     None \<Rightarrow> (Inr tk, [])
                   | Some v \<Rightarrow>
                       if v = [] then (Inr tk, [])
                       else (case create_lookup_tables (arg_oov_token a) OOV_TOKEN_ID
                                     (create_vocab special v) of
                               Inl e \<Rightarrow> (Inl e, [CreateVocab, CreateLookupTables])
                             | Inr (fwd, bwd) \<Rightarrow>
                                 (Inr (tk\<lparr>vocabulary := Some (create_vocab special v),
                                          lookup_table := Some fwd,
                                          lookup_table_reverse := Some bwd\<rparr>),
                                  [CreateVocab, CreateLookupTables]))))"

subsection \<open>SMILESTokenizer: splitting a string into tokens\<close>

definition is_digit :: "char \<Rightarrow> bool" where
  "is_digit c = (c \<in> set ''0123456789'')"

text \<open>The alternatives of \<^verbatim>\<open>SMILES_REGEX_PATTERN\<close> that are one fixed character; the
  last one is the backslash.\<close>

definition single_char_tokens :: string where
  "single_char_tokens = ''NOSPFIbcnosp().=#-+/:~@?*$'' @ [CHR 0x5C]"

text \<open>
  The length of the match of \<^verbatim>\<open>SMILES_REGEX_PATTERN\<close> at the start of a string, 0 when
  the pattern does not match there (no alternative matches the empty string). The
  alternatives start with different characters, so the first character selects the one
  that can match: a bracket atom \<^verbatim>\<open>\[[^\]]+]\<close> (an opening bracket, one or more
  characters other than the closing bracket, the closing bracket), \<^verbatim>\<open>Br?\<close>, \<^verbatim>\<open>Cl?\<close>,
  \<^verbatim>\<open>>>?\<close>, \<^verbatim>\<open>%[0-9]{2}\<close>, a single character or a digit.
\<close>

fun smiles_match :: "string \<Rightarrow> nat" where
  "smiles_match [] = 0"
| "smiles_match (c # cs) =
     (if c = CHR ''[''
      then (let n = length (takeWhile (\<lambda>x. x \<noteq> CHR '']'') cs)
            in if 0 < n \<and> n < length cs then n + 2 else 0)
      else if c = CHR ''B'' then (if cs \<noteq> [] \<and> hd cs = CHR ''r'' then 2 else 1)
      else if c = CHR ''C'' then (if cs \<noteq> [] \<and> hd cs = CHR ''l'' then 2 else 1)
      else if c = CHR ''>'' then (if cs \<noteq> [] \<and> hd cs = CHR ''>'' then 2 else 1)
      else if c = CHR ''%''
      then (if 2 \<le> length cs \<and> is_digit (cs ! 0) \<and> is_digit (cs ! 1) then 3 else 0)
      else if c \<in> set single_char_tokens \<or> is_digit c then 1
      else 0)"

text \<open>
  \<^verbatim>\<open>tf_text.regex_split\<close> with the pattern as delimiter and as kept delimiter: the
  string is scanned for the leftmost match; the text before a match, when not empty, is
  a token, the match is a token, and the scan goes on behind the match; what is left at
  the end, when not empty, is a token. \<open>pending\<close> is the text since the last match.
\<close>

function regex_split :: "string \<Rightarrow> string \<Rightarrow> string list" where
  "regex_split pending [] = (if pending = [] then [] else [pending])"
| "regex_split pending (c # cs) =
     (if smiles_match (c # cs) = 0 then regex_split (pending @ [c]) cs
      else (if pending = [] then [] else [pending])
           @ [take (smiles_match (c # cs)) (c # cs)]
           @ regex_split [] (drop (smiles_match (c # cs) - 1) cs))"
  by pat_completeness auto
termination
  by (relation "measure (\<lambda>(pending, s). length s)") (simp_all del: smiles_match.simps)

definition pretokenize :: "string list \<Rightarrow> string list list" where
  "pretokenize inputs = map (regex_split []) inputs"

subsection \<open>Tokenizer: lookup, tokenize, pad\<close>

fun index_of :: "'a \<Rightarrow> 'a list \<Rightarrow> nat option" where
  "index_of x [] = None"
| "index_of x (y # ys) = (if x = y then Some 0 else map_option Suc (index_of x ys))"

text \<open>\<^verbatim>\<open>token_to_id\<close> and \<^verbatim>\<open>id_to_token\<close> raise when the lookup tables have not been
  built.\<close>

definition token_to_id :: "tokenizer \<Rightarrow> string list list \<Rightarrow> py_error + int list list" where
  "token_to_id tk tokens =
     (case lookup_table tk of
        None \<Rightarrow> Inl ValueError
      | Some (voc, dflt) \<Rightarrow>
          Inr (map (map (\<lambda>t. case index_of t voc of Some i \<Rightarrow> int i | None \<Rightarrow> dflt)) tokens))"

definition id_to_token :: "tokenizer \<Rightarrow> int list list \<Rightarrow> py_error + string list list" where
  "id_to_token tk ids =
     (case lookup_table_reverse tk of
        None \<Rightarrow> Inl ValueError
      | Some (voc, dflt) \<Rightarrow>
          Inr (map (map (\<lambda>i. if 0 \<le> i \<and> nat i < length voc then voc ! nat i else dflt)) ids))"

text \<open>\<^verbatim>\<open>RaggedTensor.to_tensor(default_value=d)\<close>: every row is filled with \<open>d\<close> up to the
  length of the longest row.\<close>

definition to_tensor :: "'a \<Rightarrow> 'a list list \<Rightarrow> 'a list list" where
  "to_tensor d rows =
     (let n = foldr max (map length rows) 0
      in map (\<lambda>row. row @ replicate (n - length row) d) rows)"

text \<open>\<^verbatim>\<open>RaggedTensor.to_tensor(shape=(None, n), default_value=d)\<close>: every row is cut or
  filled to length \<open>n\<close>.\<close>

definition to_tensor_shape :: "nat \<Rightarrow> 'a \<Rightarrow> 'a list list \<Rightarrow> 'a list list" where
  "to_tensor_shape n d rows = map (\<lambda>row. take n row @ replicate (n - length row) d) rows"

text \<open>A rank-1 tensor with its element type: what a batch of sequences is passed as.\<close>

datatype tensor = Strings "string list" | Ints "int list" | Floats "real list"

fun is_string :: "tensor \<Rightarrow> bool" where
  "is_string (Strings xs) = True"
| "is_string t = False"

fun shape0 :: "tensor \<Rightarrow> nat" where
  "shape0 (Strings xs) = length xs"
| "shape0 (Ints xs) = length xs"
| "shape0 (Floats xs) = length xs"

text \<open>The number of columns a truthy \<^verbatim>\<open>sequence_length\<close> asks for; none for a value
  that is no dimension.\<close>

fun dimension :: "py_value \<Rightarrow> nat option" where
  "dimension (PyInt n) = (if 0 \<le> n then Some (nat n) else None)"
| "dimension (PyBool b) = Some (if b then 1 else 0)"
| "dimension v = None"

text \<open>
  \<^verbatim>\<open>tf.strings.join([pre, inputs, post])\<close>. Every argument is converted to a tensor of
  strings, which fails for a tensor of another element type: executed eagerly, the failed
  conversion is a \<open>ValueError\<close>; while \<^verbatim>\<open>tf.function\<close> traces the caller, the builder of
  the operation reports it as a \<open>TypeError\<close>.
\<close>

definition strings_join :: "bool \<Rightarrow> string \<Rightarrow> tensor \<Rightarrow> string \<Rightarrow> py_error + string list" where
  "strings_join eagerly pre inputs post =
     (case inputs of
        Strings strs \<Rightarrow> Inr (map (\<lambda>s. pre @ s @ post) strs)
      | _ \<Rightarrow> Inl (if eagerly then ValueError else TypeError))"

text \<open>
  \<^verbatim>\<open>Tokenizer.tokenize(inputs, ragged)\<close>, executed eagerly or while \<^verbatim>\<open>tf.function\<close>
  traces the caller. The result is the list of rows for the ragged and for the dense
  case.
\<close>

definition tokenize_in_mode ::
  "bool \<Rightarrow> tokenizer \<Rightarrow> tensor \<Rightarrow> bool \<Rightarrow> py_error + int list list" where
  "tokenize_in_mode eagerly tk inputs ragged =
     (case strings_join eagerly (or_empty (bos_token tk)) inputs (or_empty (eos_token tk)) of
        Inl e \<Rightarrow> Inl e
      | Inr inputs \<Rightarrow>
          (let tokens = pretokenize inputs
           in case token_to_id tk tokens of
                Inl e \<Rightarrow> Inl e
              | Inr token_ids \<Rightarrow>
                  if \<not> truthy (sequence_length tk) \<or> ragged then Inr token_ids
                  else (case dimension (sequence_length tk) of
                          None \<Rightarrow> Inl ValueError
                        | Some n \<Rightarrow>
                            let token_ids = (if padding_mode tk = ''left''
                                             then map rev token_ids else token_ids);
                                token_ids = to_tensor_shape n (pad_token_id tk) token_ids;
                                token_ids = (if padding_mode tk = ''left''
                                             then map rev token_ids else token_ids)
                            in Inr token_ids)))"

text \<open>\<^verbatim>\<open>Tokenizer.tokenize(inputs, ragged)\<close> called directly: it is executed eagerly.\<close>

definition tokenize :: "tokenizer \<Rightarrow> tensor \<Rightarrow> bool \<Rightarrow> py_error + int list list" where
  "tokenize tk inputs ragged = tokenize_in_mode True tk inputs ragged"

text \<open>\<^verbatim>\<open>Tokenizer.pad(inputs, sequence_length, pad_value)\<close> with \<^verbatim>\<open>pad_value\<close> left at
  \<^verbatim>\<open>'auto'\<close>; \<^verbatim>\<open>sequence_length\<close> is \<^verbatim>\<open>'auto'\<close>, \<^verbatim>\<open>None\<close> or a number.\<close>

datatype length_arg = AutoLength | NoLength | Length nat

definition pad :: "tokenizer \<Rightarrow> int list list \<Rightarrow> length_arg \<Rightarrow> py_error + int list list" where
  "pad tk inputs len =
     (case len of
        NoLength \<Rightarrow> Inr (to_tensor (pad_token_id tk) inputs)
      | Length n \<Rightarrow> Inr (to_tensor_shape n (pad_token_id tk) inputs)
      | AutoLength \<Rightarrow>
          (case sequence_length tk of
             PyNone \<Rightarrow> Inr (to_tensor (pad_token_id tk) inputs)
           | v \<Rightarrow> (case dimension v of
                     None \<Rightarrow> Inl ValueError
                   | Some n \<Rightarrow> Inr (to_tensor_shape n (pad_token_id tk) inputs))))"

subsection \<open>SMILESTokenizer: detokenize\<close>

text \<open>
  \<^verbatim>\<open>tf.strings.regex_replace(s, REGEX_PATTERN_CLEANUP, '')\<close>, the pattern being
  \<^verbatim>\<open>\[pad\]|\[bos\]|\[eos\].*\<close>: every match, found from left to right, is deleted. The
  third alternative takes the end token and the rest of the line with it (the dot
  matches any character but the newline).
\<close>

function regex_replace_cleanup :: "string \<Rightarrow> string" where
  "regex_replace_cleanup [] = []"
| "regex_replace_cleanup (c # cs) =
     (if prefix PAD_TOKEN (c # cs) then regex_replace_cleanup (drop (length PAD_TOKEN - 1) cs)
      else if prefix BOS_TOKEN (c # cs) then regex_replace_cleanup (drop (length BOS_TOKEN - 1) cs)
      else if prefix EOS_TOKEN (c # cs)
      then regex_replace_cleanup (dropWhile (\<lambda>x. x \<noteq> CHR 0x0A) (drop (length EOS_TOKEN - 1) cs))
      else c # regex_replace_cleanup cs)"
  by pat_completeness auto
termination
proof (relation "measure length")
  fix c :: char and cs :: string
  have "length (dropWhile (\<lambda>x. x \<noteq> CHR 0x0A) (drop (length EOS_TOKEN - 1) cs)) \<le> length cs"
    by (rule order_trans[OF length_dropWhile_le]) simp
  then show "(dropWhile (\<lambda>x. x \<noteq> CHR 0x0A) (drop (length EOS_TOKEN - 1) cs), c # cs)
      \<in> measure length"
    by simp
qed simp_all

definition detokenize :: "tokenizer \<Rightarrow> int list list \<Rightarrow> py_error + string list" where
  "detokenize tk inputs =
     (case id_to_token tk inputs of
        Inl e \<Rightarrow> Inl e
      | Inr tokens \<Rightarrow> Inr (map (\<lambda>row. regex_replace_cleanup (concat row)) tokens))"

section \<open>layers.py: the self-attention mask\<close>

text \<open>
  \<^verbatim>\<open>_compute_causal_mask(batch_size, input_length, output_length, cache_index)\<close>. The
  position tensor \<open>i\<close> has one row per batch element and one entry per query: without a
  cache index it is \<open>0, ..., output_length - 1\<close> in every row; a dense cache index is
  taken as it is; a ragged one is made dense with \<open>-1\<close> in the slots past the end of a
  row. The mask entry for batch element \<open>b\<close>, query \<open>q\<close> and key \<open>j\<close> is
  \<open>i[b][q] \<ge> j\<close>.
\<close>

definition query_positions :: "nat \<Rightarrow> nat \<Rightarrow> cache_index option \<Rightarrow> int list list" where
  "query_positions batch_size output_length cache_index =
     (case cache_index of
        None \<Rightarrow> replicate batch_size (map int [0..<output_length])
      | Some (RaggedTensor r) \<Rightarrow> to_tensor (- 1) r
      | Some (Tensor t) \<Rightarrow> t)"

definition compute_causal_mask ::
  "nat \<Rightarrow> nat \<Rightarrow> nat \<Rightarrow> cache_index option \<Rightarrow> bool list list list" where
  "compute_causal_mask batch_size input_length output_length cache_index =
     (let i = query_positions batch_size output_length cache_index;
          j = map int [0..<input_length]
      in map (map (\<lambda>iv. map (\<lambda>jv. iv \<ge> jv) j)) i)"

text \<open>A mask is a tensor of booleans or of 32-bit integers; \<^verbatim>\<open>cast(mask, "int32")\<close> turns
  the former into the latter.\<close>

datatype mask = BoolMask "bool list list list" | IntMask "int list list list"

fun cast_int32 :: "mask \<Rightarrow> int list list list" where
  "cast_int32 (BoolMask m) = map (map (map of_bool)) m"
| "cast_int32 (IntMask m) = m"

text \<open>
  An elementwise binary operation with broadcasting along one axis: the two lists have
  one length, or one of them has length 1 and its element is paired with every element of
  the other; any other pair of lengths is an error.
\<close>

fun sequence :: "(py_error + 'a) list \<Rightarrow> py_error + 'a list" where
  "sequence [] = Inr []"
| "sequence (Inl e # rs) = Inl e"
| "sequence (Inr x # rs) = (case sequence rs of Inl e \<Rightarrow> Inl e | Inr xs \<Rightarrow> Inr (x # xs))"

definition broadcast2 ::
  "('a \<Rightarrow> 'b \<Rightarrow> py_error + 'c) \<Rightarrow> 'a list \<Rightarrow> 'b list \<Rightarrow> py_error + 'c list" where
  "broadcast2 f xs ys =
     (if length xs = length ys then sequence (map2 f xs ys)
      else if length xs = 1 then sequence (map (f (hd xs)) ys)
      else if length ys = 1 then sequence (map (\<lambda>x. f x (hd ys)) xs)
      else Inl InvalidArgumentError)"

text \<open>\<^verbatim>\<open>keras.ops.minimum\<close> of two rank-3 integer tensors.\<close>

definition minimum :: "int list list list \<Rightarrow> int list list list \<Rightarrow> py_error + int list list list" where
  "minimum = broadcast2 (broadcast2 (broadcast2 (\<lambda>x y. Inr (min x y))))"

text \<open>
  \<^verbatim>\<open>_merge_padding_and_attention_mask(inputs, padding_mask, attention_mask)\<close>. Of
  \<^verbatim>\<open>inputs\<close> only the attribute \<^verbatim>\<open>_keras_mask\<close> is read; \<open>keras_mask\<close> is \<open>None\<close> when
  the inputs have no such attribute.
\<close>

definition merge_padding_and_attention_mask ::
  "bool list list option \<Rightarrow> bool list list option \<Rightarrow> mask option
   \<Rightarrow> py_error + int list list list option" where
  "merge_padding_and_attention_mask keras_mask padding_mask attention_mask =
     (let m = (case padding_mask of None \<Rightarrow> keras_mask | Some p \<Rightarrow> Some p);
          m = map_option (\<lambda>m. cast_int32 (BoolMask (map (\<lambda>row. [row]) m))) m
      in case attention_mask of
           Some a \<Rightarrow>
             (case m of
                None \<Rightarrow> Inr (Some (cast_int32 a))
              | Some m \<Rightarrow> (case minimum m (cast_int32 a) of
                             Inl e \<Rightarrow> Inl e
                           | Inr r \<Rightarrow> Inr (Some r)))
         | None \<Rightarrow> Inr m)"

text \<open>
  \<^verbatim>\<open>TransformerDecoderLayer._compute_self_attention_mask\<close>. Of the decoder sequence the
  function reads the first two dimensions (\<open>batch_size\<close>, \<open>sequence_len\<close>) and the
  attribute \<^verbatim>\<open>_keras_mask\<close>; of the cache it reads \<^verbatim>\<open>shape(cache)[2]\<close>, the number
  of cache positions (\<open>cache_len\<close>, \<open>None\<close> when there is no cache).
\<close>

definition compute_self_attention_mask ::
  "nat \<Rightarrow> nat \<Rightarrow> bool list list option \<Rightarrow> bool list list option \<Rightarrow> mask option \<Rightarrow> bool
   \<Rightarrow> nat option \<Rightarrow> cache_index option \<Rightarrow> py_error + mask option" where
  "compute_self_attention_mask batch_size sequence_len keras_mask decoder_padding_mask
       decoder_attention_mask use_causal_mask cache_len cache_update_index =
     (case merge_padding_and_attention_mask keras_mask decoder_padding_mask
             decoder_attention_mask of
        Inl e \<Rightarrow> Inl e
      | Inr decoder_mask \<Rightarrow>
          if use_causal_mask
          then (let output_length = sequence_len;
                    input_length = (case cache_len of None \<Rightarrow> sequence_len | Some n \<Rightarrow> n);
                    causal_mask = compute_causal_mask batch_size input_length output_length
                                    cache_update_index
                in case decoder_mask of
                     Some m \<Rightarrow> (case minimum m (cast_int32 (BoolMask causal_mask)) of
                                  Inl e \<Rightarrow> Inl e
                                | Inr r \<Rightarrow> Inr (Some (IntMask r)))
                   | None \<Rightarrow> Inr (Some (BoolMask causal_mask)))
          else Inr (map_option IntMask decoder_mask))"

section \<open>models.py: the decoder as the sampler sees it\<close>

text \<open>
  The numerical work of \<^verbatim>\<open>TransformerDecoder.call\<close> (embeddings, decoder layers, output
  projection) is a parameter: \<open>forward\<close> maps the decoder sequence \<open>[batch, length]\<close>, the
  caches and the cache update indices to the logits \<open>[batch, length, vocabulary]\<close> and the
  updated caches. A cache is a value of the type parameter \<open>'c\<close>.
\<close>

record 'c decoder =
  model_sequence_length :: nat
  initialize_attention_cache :: "nat \<Rightarrow> nat \<Rightarrow> 'c"
  forward :: "int list list \<Rightarrow> 'c option \<Rightarrow> cache_index option \<Rightarrow> tensor option
              \<Rightarrow> 'c option \<Rightarrow> cache_index option
              \<Rightarrow> real list list list \<times> 'c option \<times> 'c option"

text \<open>What \<^verbatim>\<open>TransformerDecoder.call\<close> returns: the logits alone, or a tuple of two or
  of three. A cache that was not passed is returned as it came, as \<^verbatim>\<open>None\<close>.\<close>

datatype 'c outputs =
    Out1 "real list list list"
  | Out2 "real list list list" "'c option"
  | Out3 "real list list list" "'c option" "'c option"

definition TransformerDecoder_call ::
  "'c decoder \<Rightarrow> int list list \<Rightarrow> 'c option \<Rightarrow> cache_index option \<Rightarrow> tensor option
   \<Rightarrow> 'c option \<Rightarrow> cache_index option \<Rightarrow> 'c outputs" where
  "TransformerDecoder_call m decoder_sequence sc si enc cc ci =
     (let self_attention_caching = (sc \<noteq> None);
          cross_attention_caching = (cc \<noteq> None);
          (x, sc', cc') = forward m decoder_sequence sc si enc cc ci
      in if \<not> self_attention_caching \<and> \<not> cross_attention_caching then Out1 x
         else if self_attention_caching \<and> \<not> cross_attention_caching then Out2 x sc'
         else Out3 x (if self_attention_caching then sc' else sc) cc')"

section \<open>samplers.py\<close>

subsection \<open>Construction\<close>

text \<open>A \<^verbatim>\<open>Sampler\<close> has \<open>sampler_k = None\<close>, a \<^verbatim>\<open>TopKSampler\<close> has its \<^verbatim>\<open>k\<close> there.\<close>

record 'c sampler =
  model :: "'c decoder"
  tokenizer :: tokenizer
  temperature :: real
  run_eagerly :: bool
  sampler_k :: "nat option"

text \<open>
  \<^verbatim>\<open>Sampler.__init__\<close>. Wrapping \<^verbatim>\<open>_prepare\<close> and \<^verbatim>\<open>_generate\<close> in \<^verbatim>\<open>tf.function\<close>
  calls neither of them.
\<close>

definition Sampler_init :: "'c decoder \<Rightarrow> tokenizer \<Rightarrow> real \<Rightarrow> bool \<Rightarrow> 'c sampler io" where
  "Sampler_init m tk temp eagerly =
     (if \<not> (str_truthy (bos_token tk) \<and> str_truthy (eos_token tk))
      then (Inl ValueError, [])
      else (Inr \<lparr> model = m, tokenizer = tk, temperature = temp, run_eagerly = eagerly,
                  sampler_k = None \<rparr>, []))"

definition TopKSampler_init ::
  "'c decoder \<Rightarrow> tokenizer \<Rightarrow> nat \<Rightarrow> real \<Rightarrow> bool \<Rightarrow> 'c sampler io" where
  "TopKSampler_init m tk k0 temp eagerly =
     (case Sampler_init m tk temp eagerly of
        (Inl e, ev) \<Rightarrow> (Inl e, ev)
      | (Inr S, ev) \<Rightarrow> (Inr (S\<lparr>sampler_k := Some k0\<rparr>), ev))"

subsection \<open>Choosing the next token\<close>

text \<open>
  The logits are 32-bit floats. The logits that the model returns are finite and are kept
  as the real numbers they denote; so is the temperature, the 32-bit float that
  \<^verbatim>\<open>self.temperature\<close> is converted to. A quotient of two finite floats need not be
  finite.
\<close>

datatype float32 = Num real | PosInf | NegInf | NaN

fun is_finite :: "float32 \<Rightarrow> bool" where
  "is_finite (Num x) = True"
| "is_finite v = False"

text \<open>
  The least magnitude that is rounded to an infinity (to nearest, ties to even): half a
  unit in the last place above the greatest finite 32-bit float, \<open>2 ^ 128 - 2 ^ 104\<close>.
\<close>

definition FLT_OVERFLOW :: real where
  "FLT_OVERFLOW = 2 ^ 128 - 2 ^ 103"

text \<open>
  \<^verbatim>\<open>x / t\<close> on 32-bit floats, for finite \<open>x\<close> and \<open>t\<close>: a quotient of magnitude
  \<open>FLT_OVERFLOW\<close> or more overflows to an infinity, a division by zero gives an infinity
  or, for \<open>0 / 0\<close>, no number. For a quotient within range the exact value stands for the
  float it is rounded to.
\<close>

definition float32_div :: "real \<Rightarrow> real \<Rightarrow> float32" where
  "float32_div x t =
     (if t = 0 then (if 0 < x then PosInf else if x < 0 then NegInf else NaN)
      else if FLT_OVERFLOW \<le> x / t then PosInf
      else if x / t \<le> - FLT_OVERFLOW then NegInf
      else Num (x / t))"

text \<open>
  \<^verbatim>\<open>tf.random.categorical(logits, num_samples=1)\<close> draws one class per row. The random
  draw is a parameter: \<open>draw b row\<close> is the class drawn for batch row \<open>b\<close> with logits
  \<open>row\<close>; for a row with a finite logit TensorFlow draws a class below the number of
  classes. The kernel leaves out the logits that are not finite, and for a row without
  a finite logit it finds no class and returns the number of classes.
\<close>

definition categorical ::
  "(nat \<Rightarrow> float32 list \<Rightarrow> nat) \<Rightarrow> float32 list list \<Rightarrow> int list list" where
  "categorical draw logits =
     map (\<lambda>(b, row). [int (if list_ex is_finite row then draw b row else length row)])
       (enumerate 0 logits)"


text \<open>\<^verbatim>\<open>Sampler.get_next_token\<close>\<close>

definition Sampler_get_next_token ::
  "real \<Rightarrow> (nat \<Rightarrow> float32 list \<Rightarrow> nat) \<Rightarrow> real list list \<Rightarrow> int list list" where
  "Sampler_get_next_token temp draw logits =
     categorical draw (map (map (\<lambda>x. float32_div x temp)) logits)"

text \<open>The position of the first greatest element of a list.\<close>

fun argmax :: "real list \<Rightarrow> nat" where
  "argmax [] = 0"
| "argmax [x] = 0"
| "argmax (x # y # ys) = (let i = argmax (y # ys) in if x < (y # ys) ! i then Suc i else 0)"

text \<open>
  \<^verbatim>\<open>ops.top_k(logits, k, sorted=False)\<close> for one row, as (index, value) pairs: the
  greatest entry is taken out \<open>k\<close> times, of equal entries the one with the lower index
  first. With \<^verbatim>\<open>sorted=False\<close> the order of the \<open>k\<close> pairs is not specified; they are
  kept in the order they are taken.
\<close>

fun top_k_pairs :: "nat \<Rightarrow> (nat \<times> real) list \<Rightarrow> (nat \<times> real) list" where
  "top_k_pairs 0 ps = []"
| "top_k_pairs (Suc n) ps =
     (if ps = [] then []
      else (let i = argmax (map snd ps)
            in ps ! i # top_k_pairs n (take i ps @ drop (Suc i) ps)))"

text \<open>A row with fewer than \<open>k\<close> entries is an error.\<close>

definition top_k :: "real list list \<Rightarrow> nat \<Rightarrow> py_error + real list list \<times> int list list" where
  "top_k logits k0 =
     (if \<exists>row \<in> set logits. length row < k0 then Inl InvalidArgumentError
      else (let ps = map (\<lambda>row. top_k_pairs k0 (enumerate 0 row)) logits
            in Inr (map (map snd) ps, map (map (\<lambda>p. int (fst p))) ps)))"

text \<open>
  \<^verbatim>\<open>ops.take_along_axis(indices, sample, axis=-1)\<close>: entry \<open>s\<close> of a row of \<open>sample\<close>
  selects entry \<open>s\<close> of the same row of \<open>indices\<close>, a negative \<open>s\<close> counting from the end
  of the row; an entry outside the row is an error.
\<close>

definition take_along_axis :: "int list list \<Rightarrow> int list list \<Rightarrow> py_error + int list list" where
  "take_along_axis indices sample =
     (if length indices \<noteq> length sample then Inl InvalidArgumentError
      else sequence (map2 (\<lambda>irow srow.
             sequence (map (\<lambda>s. let s = (if s < 0 then s + int (length irow) else s)
                                 in if 0 \<le> s \<and> nat s < length irow then Inr (irow ! nat s)
                                    else Inl InvalidArgumentError) srow))
           indices sample))"

text \<open>\<^verbatim>\<open>TopKSampler.get_next_token\<close>\<close>

definition TopKSampler_get_next_token ::
  "nat \<Rightarrow> real \<Rightarrow> (nat \<Rightarrow> float32 list \<Rightarrow> nat) \<Rightarrow> real list list \<Rightarrow> py_error + int list list" where
  "TopKSampler_get_next_token k0 temp draw logits =
     (case top_k logits k0 of
        Inl e \<Rightarrow> Inl e
      | Inr (logits, indices) \<Rightarrow>
          (let sample = Sampler_get_next_token temp draw logits
           in take_along_axis indices sample))"

text \<open>\<^verbatim>\<open>self.get_next_token\<close>, dispatched on the class of the sampler.\<close>

definition get_next_token ::
  "'c sampler \<Rightarrow> (nat \<Rightarrow> float32 list \<Rightarrow> nat) \<Rightarrow> real list list \<Rightarrow> py_error + int list list" where
  "get_next_token S draw logits =
     (case sampler_k S of
        None \<Rightarrow> Inr (Sampler_get_next_token (temperature S) draw logits)
      | Some k0 \<Rightarrow> TopKSampler_get_next_token k0 (temperature S) draw logits)"

subsection \<open>Priming\<close>

text \<open>\<^verbatim>\<open>ops.squeeze(x, axis=1)\<close>: axis 1 must have size one.\<close>

definition squeeze1 :: "'a list list \<Rightarrow> py_error + 'a list" where
  "squeeze1 rows =
     (if list_all (\<lambda>row. length row = 1) rows then Inr (map hd rows)
      else Inl InvalidArgumentError)"

text \<open>
  \<^verbatim>\<open>decoder_input[:, -1:].to_tensor()[:, 0]\<close>: the last token of every row. The slice
  keeps at most one token per row, \<^verbatim>\<open>to_tensor\<close> fills an empty row with 0, and column 0
  does not exist when no row has a token.
\<close>

definition last_tokens :: "int list list \<Rightarrow> py_error + int list" where
  "last_tokens rows =
     (let t = to_tensor 0 (map (\<lambda>row. drop (length row - 1) row) rows)
      in if list_all (\<lambda>row. row = []) t then Inl InvalidArgumentError
         else Inr (map hd t))"

text \<open>
  \<^verbatim>\<open>Sampler._prepare\<close>, which the constructor wraps in \<^verbatim>\<open>tf.function\<close> unless the
  sampler runs eagerly. The result is the tuple the source returns: current token,
  decoder input, self-attention cache, self-attention cache update index, encoder output,
  cross-attention cache, cross-attention cache update index. The model returns a tuple of
  three when a cross-attention cache is passed, and \<^verbatim>\<open>_, attention_cache = ...\<close> then
  fails to unpack it.
\<close>

definition prepare ::
  "'c sampler \<Rightarrow> tensor \<Rightarrow> tensor option
   \<Rightarrow> (int list \<times> int list list \<times> 'c option \<times> cache_index option \<times> tensor option
        \<times> 'c option \<times> cache_index option) io" where
  "prepare S decoder_input enc =
     (let batch_size = shape0 decoder_input;
          sequence_len = model_sequence_length (model S)
      in case tokenize_in_mode (run_eagerly S) (tokenizer S) decoder_input True of
           Inl e \<Rightarrow> (Inl e, [Tokenize])
         | Inr token_ids \<Rightarrow>
             (let decoder_input = map butlast token_ids;
                  sequence_lengths = row_lengths decoder_input;
                  sc = initialize_attention_cache (model S) batch_size sequence_len;
                  si = RaggedTensor (ragged_range sequence_lengths);
                  cc = (if enc \<noteq> None
                        then Some (initialize_attention_cache (model S) batch_size sequence_len)
                        else None);
                  ci = (if enc \<noteq> None then Some (RaggedTensor (ragged_range sequence_lengths))
                        else None)
              in case last_tokens decoder_input of
                   Inl e \<Rightarrow> (Inl e, [Tokenize])
                 | Inr current_token \<Rightarrow>
                     (case pad (tokenizer S) decoder_input NoLength of
                        Inl e \<Rightarrow> (Inl e, [Tokenize])
                      | Inr padded \<Rightarrow>
                          (case TransformerDecoder_call (model S) padded (Some sc) (Some si)
                                  enc cc ci of
                             Out2 x attention_cache \<Rightarrow>
                               (Inr (current_token, decoder_input, attention_cache,
                                     Some (Tensor (replicate batch_size [0])), enc, cc, ci),
                                [Tokenize, Prime])
                           | Out3 x a b \<Rightarrow> (Inl ValueError, [Tokenize, Prime])
                           | Out1 x \<Rightarrow> (Inl ValueError, [Tokenize, Prime])))))"

subsection \<open>The generation loop\<close>

text \<open>
  The loop variables of \<^verbatim>\<open>ops.while_loop\<close> in \<^verbatim>\<open>_generate\<close>, and the events so far.
  \<open>tokens\<close> is the \<^verbatim>\<open>TensorArray\<close>: entry \<open>t\<close> is the vector, one token per batch row,
  written at index \<open>t\<close>. \<^verbatim>\<open>__call__\<close> passes \<^verbatim>\<open>()\<close> for \<^verbatim>\<open>log_probs\<close> and
  \<^verbatim>\<open>entropies\<close>, which the loop then hands on unchanged; they are left out.
\<close>

record 'c loop_vars =
  tokens :: "int list list"
  self_attention_cache :: "'c option"
  self_attention_cache_update_index :: "cache_index option"
  encoder_output :: "tensor option"
  cross_attention_cache :: "'c option"
  cross_attention_cache_update_index :: "cache_index option"
  events :: "event list"

text \<open>\<^verbatim>\<open>keras.ops.any(x, axis=0)\<close> for a matrix with one row per entry of the array.\<close>

definition any_axis0 :: "bool list list \<Rightarrow> bool list" where
  "any_axis0 rows =
     (case rows of
        [] \<Rightarrow> []
      | r # rs \<Rightarrow> map (\<lambda>b. list_ex (\<lambda>row. row ! b) rows) [0..<length r])"

text \<open>\<^verbatim>\<open>_cond\<close>: not all batch rows have the stop token somewhere in the array.\<close>

definition generate_cond :: "'c sampler \<Rightarrow> int list list \<Rightarrow> bool" where
  "generate_cond S toks =
     (let stop_token_id = eos_token_id (tokenizer S)
      in \<not> list_all (\<lambda>x. x) (any_axis0 (map (map (\<lambda>t. Some t = stop_token_id)) toks)))"

text \<open>\<^verbatim>\<open>index += 1\<close> on a cache update index.\<close>

fun increment :: "cache_index \<Rightarrow> cache_index" where
  "increment (Tensor t) = Tensor (map (map (\<lambda>i. i + 1)) t)"
| "increment (RaggedTensor r) = RaggedTensor (map (map (\<lambda>i. i + 1)) r)"

text \<open>
  \<^verbatim>\<open>_step\<close>. \<open>draw\<close> is the random draw of this step. An error carries the events up to
  it.
\<close>

definition generate_step ::
  "'c sampler \<Rightarrow> (nat \<Rightarrow> float32 list \<Rightarrow> nat) \<Rightarrow> 'c loop_vars
   \<Rightarrow> py_error \<times> event list + 'c loop_vars" where
  "generate_step S draw v =
     (let index = length (tokens v);
          current_token = tokens v ! (index - 1);
          current_token = map (\<lambda>t. [t]) current_token;
          ev = events v @ [DecodeStep];
          outputs = TransformerDecoder_call (model S) current_token
                      (self_attention_cache v) (self_attention_cache_update_index v)
                      (encoder_output v) (cross_attention_cache v)
                      (cross_attention_cache_update_index v);
          (logits, sc, cc) =
             (case outputs of
                Out1 x \<Rightarrow> (x, self_attention_cache v, cross_attention_cache v)
              | Out2 x a \<Rightarrow> (x, a, cross_attention_cache v)
              | Out3 x a b \<Rightarrow> (x, a, b))
      in case squeeze1 logits of
           Inl e \<Rightarrow> Inl (e, ev)
         | Inr logits \<Rightarrow>
             (case get_next_token S draw logits of
                Inl e \<Rightarrow> Inl (e, ev)
              | Inr next_token \<Rightarrow>
                  (case squeeze1 next_token of
                     Inl e \<Rightarrow> Inl (e, ev)
                   | Inr next_token \<Rightarrow>
                       Inr (v\<lparr> tokens := tokens v @ [next_token],
                               self_attention_cache := sc,
                               self_attention_cache_update_index :=
                                 map_option increment (self_attention_cache_update_index v),
                               cross_attention_cache := cc,
                               cross_attention_cache_update_index :=
                                 map_option increment (cross_attention_cache_update_index v),
                               events := ev \<rparr>))))"

text \<open>
  \<^verbatim>\<open>ops.while_loop(_cond, _step, loop_vars)\<close>. Nothing bounds the number of steps, so
  the loop is a partial function: \<open>None\<close> is a loop that never stops. \<open>draws t\<close> is the
  random draw of the step that writes entry \<open>t\<close> of the array.
\<close>

partial_function (option) generate_loop ::
  "'c sampler \<Rightarrow> (nat \<Rightarrow> nat \<Rightarrow> float32 list \<Rightarrow> nat) \<Rightarrow> 'c loop_vars
   \<Rightarrow> (py_error \<times> event list + 'c loop_vars) option" where
  "generate_loop S draws v =
     (if generate_cond S (tokens v)
      then (case generate_step S (draws (length (tokens v))) v of
              Inl e \<Rightarrow> Some (Inl e)
            | Inr v' \<Rightarrow> generate_loop S draws v')
      else Some (Inr v))"

text \<open>\<^verbatim>\<open>_unpack_array\<close>: the stacked array, transposed to one row per batch element.\<close>

definition unpack_array :: "int list list \<Rightarrow> int list list" where
  "unpack_array rows =
     (case rows of
        [] \<Rightarrow> []
      | r # rs \<Rightarrow> map (\<lambda>b. map (\<lambda>row. row ! b) rows) [0..<length r])"

text \<open>
  \<^verbatim>\<open>Sampler._generate\<close>, up to the end of the loop: the array starts with the current
  token, and \<^verbatim>\<open>x or ()\<close> asks for the truth value of \<open>x\<close>, which a tensor does not have.
  \<open>ev\<close> are the events before the call.
\<close>

definition generate_vars ::
  "'c sampler \<Rightarrow> (nat \<Rightarrow> nat \<Rightarrow> float32 list \<Rightarrow> nat) \<Rightarrow> int list \<Rightarrow> 'c option
   \<Rightarrow> cache_index option \<Rightarrow> tensor option \<Rightarrow> 'c option \<Rightarrow> cache_index option \<Rightarrow> event list
   \<Rightarrow> (py_error \<times> event list + 'c loop_vars) option" where
  "generate_vars S draws current_token sc si enc cc ci ev =
     (if \<not> (enc = None \<and> cc = None \<and> ci = None) then Some (Inl (TensorTruthError, ev))
      else generate_loop S draws
             \<lparr> tokens = [current_token], self_attention_cache = sc,
               self_attention_cache_update_index = si, encoder_output = None,
               cross_attention_cache = None, cross_attention_cache_update_index = None,
               events = ev \<rparr>)"

text \<open>\<^verbatim>\<open>Sampler._generate\<close>: the tokens of the array, one row per batch element.\<close>

definition generate ::
  "'c sampler \<Rightarrow> (nat \<Rightarrow> nat \<Rightarrow> float32 list \<Rightarrow> nat) \<Rightarrow> int list \<Rightarrow> 'c option
   \<Rightarrow> cache_index option \<Rightarrow> tensor option \<Rightarrow> 'c option \<Rightarrow> cache_index option \<Rightarrow> event list
   \<Rightarrow> int list list io option" where
  "generate S draws current_token sc si enc cc ci ev =
     map_option (\<lambda>r. case r of
                       Inl (e, ev') \<Rightarrow> (Inl e, ev')
                     | Inr v \<Rightarrow> (Inr (unpack_array (tokens v)), events v))
       (generate_vars S draws current_token sc si enc cc ci ev)"

subsection \<open>The public calls\<close>

text \<open>\<^verbatim>\<open>keras.ops.concatenate([decoder_input, tokens], axis=1)\<close>\<close>

definition concatenate_axis1 :: "int list list \<Rightarrow> int list list \<Rightarrow> py_error + int list list" where
  "concatenate_axis1 xs ys =
     (if length xs = length ys then Inr (map2 (@) xs ys) else Inl InvalidArgumentError)"

text \<open>\<^verbatim>\<open>Sampler.__call__\<close>\<close>

definition Sampler_call ::
  "'c sampler \<Rightarrow> (nat \<Rightarrow> nat \<Rightarrow> float32 list \<Rightarrow> nat) \<Rightarrow> tensor \<Rightarrow> tensor option
   \<Rightarrow> string list io option" where
  "Sampler_call S draws decoder_input enc =
     (case prepare S decoder_input enc of
        (Inl e, ev) \<Rightarrow> Some (Inl e, ev)
      | (Inr (last_token, decoder_input, sc, si, eo, cc, ci), ev) \<Rightarrow>
          (case generate S draws last_token sc si eo cc ci ev of
             None \<Rightarrow> None
           | Some (Inl e, ev') \<Rightarrow> Some (Inl e, ev')
           | Some (Inr toks, ev') \<Rightarrow>
               (case concatenate_axis1 decoder_input toks of
                  Inl e \<Rightarrow> Some (Inl e, ev')
                | Inr decoder_output \<Rightarrow>
                    Some (detokenize (tokenizer S) decoder_output, ev' @ [Detokenize]))))"

text \<open>
  An argument of \<^verbatim>\<open>sample\<close> is a tensor already, or a Python value (a list, an array)
  that \<^verbatim>\<open>ops.convert_to_tensor\<close> turns into the tensor given.
\<close>

datatype sequence_input = TensorInput tensor | ConvertibleInput tensor

text \<open>The first lines of \<^verbatim>\<open>sample\<close>, for one argument: the element type is checked
  inside the branch that converts.\<close>

fun convert_checked :: "sequence_input \<Rightarrow> py_error + tensor" where
  "convert_checked (TensorInput t) = Inr t"
| "convert_checked (ConvertibleInput t) = (if \<not> is_string t then Inl ValueError else Inr t)"

text \<open>\<^verbatim>\<open>Sampler.sample\<close>\<close>

definition sample ::
  "'c sampler \<Rightarrow> (nat \<Rightarrow> nat \<Rightarrow> float32 list \<Rightarrow> nat) \<Rightarrow> sequence_input \<Rightarrow> sequence_input option
   \<Rightarrow> string list io option" where
  "sample S draws decoder_sequence encoder_sequence =
     (case convert_checked decoder_sequence of
        Inl e \<Rightarrow> Some (Inl e, [])
      | Inr d \<Rightarrow>
          (case encoder_sequence of
             None \<Rightarrow> Sampler_call S draws d None
           | Some es \<Rightarrow>
               (case convert_checked es of
                  Inl e \<Rightarrow> Some (Inl e, [])
                | Inr e \<Rightarrow> Sampler_call S draws d (Some e))))"

subsection \<open>A stub model for the scenario of the specification\<close>

text \<open>
  The vocabulary is \<open>[pad], [oov], [bos], [eos], A, B\<close> with ids 0 to 5. The stub's
  logits put the greatest value on \<open>B\<close> (id 5) after an \<open>A\<close> (id 4) and on the end token
  (id 3) after anything else, whatever the caches are; with a top-1 sampler the model
  emits \<open>B\<close> and then the end token.
\<close>

definition scenario_args :: tokenizer_args where
  "scenario_args = default_args\<lparr> arg_vocabulary := Some [''A'', ''B''],
     arg_add_bos := True, arg_add_eos := True \<rparr>"

definition stub_logits :: "int \<Rightarrow> real list" where
  "stub_logits t = (if t = 4 then [0, 0, 0, 0, 0, 1] else [0, 0, 0, 1, 0, 0])"

definition stub_model :: "unit decoder" where
  "stub_model = \<lparr> model_sequence_length = 8,
     initialize_attention_cache = (\<lambda>b n. ()),
     forward = (\<lambda>ds sc si enc cc ci. (map (map stub_logits) ds, sc, cc)) \<rparr>"

text \<open>The tokenizer that \<open>Tokenizer_init scenario_args\<close> returns.\<close>

definition scenario_vocabulary :: "string list" where
  "scenario_vocabulary = [''[pad]'', ''[oov]'', ''[bos]'', ''[eos]'', ''A'', ''B'']"

definition scenario_tokenizer :: tokenizer where
  "scenario_tokenizer = \<lparr> sequence_length = PyNone, padding_mode = ''right'',
     pad_token = ''[pad]'', bos_token = Some ''[bos]'', eos_token = Some ''[eos]'',
     oov_token = Some ''[oov]'', sep_token = None, pad_token_id = 0, oov_token_id = 1,
     bos_token_id = Some 2, eos_token_id = Some 3,
     special_tokens = [''[pad]'', ''[oov]'', ''[bos]'', ''[eos]''],
     vocabulary = Some scenario_vocabulary,
     lookup_table = Some (scenario_vocabulary, 1),
     lookup_table_reverse = Some (scenario_vocabulary, ''[oov]'') \<rparr>"

definition scenario_sampler :: "unit sampler" where
  "scenario_sampler = \<lparr> model = stub_model, tokenizer = scenario_tokenizer, temperature = 0.7,
     run_eagerly = False, sampler_k = Some 1 \<rparr>"

text \<open>
  A second stub goes on after the end token: its logits put the greatest value on \<open>B\<close>
  after an \<open>A\<close>, on the end token after a \<open>B\<close>, and on \<open>A\<close> after anything else.
\<close>

definition restart_logits :: "int \<Rightarrow> real list" where
  "restart_logits t =
     (if t = 4 then [0, 0, 0, 0, 0, 1]
      else if t = 5 then [0, 0, 0, 1, 0, 0]
      else [0, 0, 0, 0, 1, 0])"

definition restart_model :: "unit decoder" where
  "restart_model = \<lparr> model_sequence_length = 8,
     initialize_attention_cache = (\<lambda>b n. ()),
     forward = (\<lambda>ds sc si enc cc ci. (map (map restart_logits) ds, sc, cc)) \<rparr>"

definition restart_sampler :: "unit sampler" where
  "restart_sampler = \<lparr> model = restart_model, tokenizer = scenario_tokenizer,
     temperature = 0.7, run_eagerly = False, sampler_k = Some 1 \<rparr>"

section \<open>Properties of the attention cache update\<close>

subsection \<open>A scatter writes its values and nothing else\<close>

lemma scatter_update_frame:
  assumes "length is = length vs"
    and "\<forall>(b, p) \<in> set is. b < length c \<and> 0 \<le> p \<and> nat p < length (c ! b)"
  shows "\<exists>c'. scatter_update c is vs = Inr c' \<and> length c' = length c
     \<and> (\<forall>b < length c. length (c' ! b) = length (c ! b))
     \<and> (\<forall>b p. (b, int p) \<notin> set is \<longrightarrow> c' ! b ! p = c ! b ! p)
     \<and> (distinct is \<longrightarrow> (\<forall>(k, v) \<in> set (zip is vs). c' ! fst k ! nat (snd k) = v))"
  using assms
proof (induction "is" arbitrary: c vs)
  case Nil
  then show ?case by simp
next
  case (Cons bp "is")
  obtain b p where bp: "bp = (b, p)" by (cases bp)
  from Cons.prems obtain v vs' where vs: "vs = v # vs'" by (cases vs) auto
  let ?c1 = "c[b := (c ! b)[nat p := v]]"
  from Cons.prems bp have rng: "b < length c" "0 \<le> p" "nat p < length (c ! b)" by auto
  have len1: "length ?c1 = length c" by simp
  have rows1: "\<And>b'. b' < length c \<Longrightarrow> length (?c1 ! b') = length (c ! b')"
  proof -
    fix b' assume "b' < length c"
    then show "length (?c1 ! b') = length (c ! b')" by (cases "b' = b") simp_all
  qed
  have pre: "\<forall>(b, p) \<in> set is. b < length ?c1 \<and> 0 \<le> p \<and> nat p < length (?c1 ! b)"
    using Cons.prems(2) rows1 by auto
  from Cons.IH[of vs' ?c1] Cons.prems vs pre
  obtain c' where c': "scatter_update ?c1 is vs' = Inr c'" "length c' = length ?c1"
    "\<forall>b < length ?c1. length (c' ! b) = length (?c1 ! b)"
    "\<forall>b p. (b, int p) \<notin> set is \<longrightarrow> c' ! b ! p = ?c1 ! b ! p"
    "distinct is \<longrightarrow> (\<forall>(k, v) \<in> set (zip is vs'). c' ! fst k ! nat (snd k) = v)"
    by auto
  have run: "scatter_update c (bp # is) vs = Inr c'"
    using c'(1) rng by (simp add: bp vs)
  have frame: "\<forall>b' p'. (b', int p') \<notin> set (bp # is) \<longrightarrow> c' ! b' ! p' = c ! b' ! p'"
  proof (intro allI impI)
    fix b' p' assume n: "(b', int p') \<notin> set (bp # is)"
    then have "c' ! b' ! p' = ?c1 ! b' ! p'" using c'(4) by simp
    also have "\<dots> = c ! b' ! p'"
    proof (cases "b' = b")
      case True
      with n bp rng have "p' \<noteq> nat p" by auto
      with True rng show ?thesis by simp
    next
      case False
      then show ?thesis by simp
    qed
    finally show "c' ! b' ! p' = c ! b' ! p'" .
  qed
  have written: "distinct (bp # is) \<longrightarrow> (\<forall>(k, v) \<in> set (zip (bp # is) vs). c' ! fst k ! nat (snd k) = v)"
  proof
    assume d: "distinct (bp # is)"
    then have "(b, int (nat p)) \<notin> set is" using bp rng by simp
    then have "c' ! b ! nat p = ?c1 ! b ! nat p" using c'(4) by blast
    also have "\<dots> = v" using rng by simp
    finally have hd: "c' ! b ! nat p = v" .
    from d c'(5) have tl: "\<forall>(k, v) \<in> set (zip is vs'). c' ! fst k ! nat (snd k) = v" by simp
    show "\<forall>(k, v) \<in> set (zip (bp # is) vs). c' ! fst k ! nat (snd k) = v"
      using hd tl by (auto simp: vs bp)
  qed
  show ?case using run c'(2,3) len1 rows1 frame written by auto
qed


lemma zip_replicate_row: "zip (replicate (length r) b) r = map (Pair b) r"
  by (induction r) simp_all

lemma zip_rowids:
  "map length rows = ls \<Longrightarrow>
   zip (concat (map (\<lambda>(b, n). replicate n b) (enumerate n0 ls))) (concat rows)
   = concat (map (\<lambda>(b, row). map (Pair b) row) (enumerate n0 rows))"
proof (induction rows arbitrary: n0 ls)
  case Nil
  then show ?case by simp
next
  case (Cons r rows)
  then obtain ls' where ls: "ls = length r # ls'" "map length rows = ls'" by auto
  show ?case using Cons.IH[OF ls(2), of "Suc n0"]
    by (simp add: ls zip_replicate_row)
qed

lemma scatter_index_eq:
  "zip (value_rowids rows) (flat_values rows)
   = concat (map (\<lambda>(b, row). map (Pair b) row) (enumerate 0 rows))"
  unfolding value_rowids_def flat_values_def row_lengths_def
  by (rule zip_rowids) simp

lemma gather_index_eq:
  "zip (value_rowids rows) (flat_values (ragged_range (row_lengths rows)))
   = concat (map (\<lambda>(b, row). map (Pair b) row) (enumerate 0 (ragged_range (row_lengths rows))))"
  unfolding value_rowids_def flat_values_def
  by (rule zip_rowids) (simp add: ragged_range_def row_lengths_def comp_def)

lemma gather_nd_append:
  "gather_nd u (xs @ ys) =
     (case gather_nd u xs of Inl e \<Rightarrow> Inl e
      | Inr a \<Rightarrow> (case gather_nd u ys of Inl e \<Rightarrow> Inl e | Inr b \<Rightarrow> Inr (a @ b)))"
  by (induction u xs rule: gather_nd.induct) (auto split: sum.splits)

lemma gather_nd_row:
  "b < length u \<Longrightarrow> k \<le> length (u ! b) \<Longrightarrow>
   gather_nd u (map (Pair b) (map int [0..<k])) = Inr (take k (u ! b))"
proof (induction k)
  case 0
  then show ?case by simp
next
  case (Suc k)
  then show ?case
    by (simp add: gather_nd_append take_Suc_conv_app_nth)
qed

lemma gather_nd_rows:
  "\<forall>i < length rows. n0 + i < length u \<and> length (rows ! i) \<le> length (u ! (n0 + i)) \<Longrightarrow>
   gather_nd u (concat (map (\<lambda>(b, row). map (Pair b) row)
       (enumerate n0 (ragged_range (row_lengths rows)))))
   = Inr (concat (map (\<lambda>(b, row). take (length row) (u ! b)) (enumerate n0 rows)))"
proof (induction rows arbitrary: n0)
  case Nil
  then show ?case by (simp add: ragged_range_def row_lengths_def)
next
  case (Cons r rows)
  from Cons.prems have hd: "n0 < length u" "length r \<le> length (u ! n0)"
    by (metis add.right_neutral length_greater_0_conv list.discI nth_Cons_0)+
  from Cons.prems have tl: "\<forall>i < length rows. Suc n0 + i < length u
      \<and> length (rows ! i) \<le> length (u ! (Suc n0 + i))"
    by fastforce
  show ?case using Cons.IH[OF tl] gather_nd_row[OF hd]
    by (simp add: ragged_range_def row_lengths_def gather_nd_append)
qed

lemma zip_scatter_gathered:
  "\<forall>i < length rows. length (rows ! i) \<le> length (u ! (n0 + i)) \<Longrightarrow>
   length (concat (map (\<lambda>(b, row). map (Pair b) row) (enumerate n0 rows)))
     = length (concat (map (\<lambda>(b, row). take (length row) (u ! b)) (enumerate n0 rows)))
   \<and> zip (concat (map (\<lambda>(b, row). map (Pair b) row) (enumerate n0 rows)))
       (concat (map (\<lambda>(b, row). take (length row) (u ! b)) (enumerate n0 rows)))
     = concat (map (\<lambda>(b, row). zip (map (Pair b) row) (take (length row) (u ! b)))
         (enumerate n0 rows))"
proof (induction rows arbitrary: n0)
  case Nil
  then show ?case by simp
next
  case (Cons r rows)
  from Cons.prems have hd: "length r \<le> length (u ! n0)"
    by (metis add.right_neutral length_greater_0_conv list.discI nth_Cons_0)
  from Cons.prems have tl: "\<forall>i < length rows. length (rows ! i) \<le> length (u ! (Suc n0 + i))"
    by fastforce
  show ?case using Cons.IH[OF tl] hd by simp
qed

lemma fst_pairs_ge:
  "x \<in> set (concat (map (\<lambda>(b, row). map (Pair b) row) (enumerate n0 rows))) \<Longrightarrow> n0 \<le> fst x"
  by (auto simp: in_set_enumerate_eq)

lemma distinct_pairs:
  "\<forall>i < length rows. distinct (rows ! i) \<Longrightarrow>
   distinct (concat (map (\<lambda>(b, row). map (Pair b) row) (enumerate n0 rows)))"
proof (induction rows arbitrary: n0)
  case Nil
  then show ?case by simp
next
  case (Cons r rows)
  from Cons.prems have hd: "distinct r" by (metis length_greater_0_conv list.discI nth_Cons_0)
  from Cons.prems have tl: "\<forall>i < length rows. distinct (rows ! i)" by fastforce
  have disj: "set (map (Pair n0) r)
      \<inter> set (concat (map (\<lambda>(b, row). map (Pair b) row) (enumerate (Suc n0) rows))) = {}"
    using fst_pairs_ge[of _ "Suc n0" rows] by fastforce
  show ?case using Cons.IH[OF tl, of "Suc n0"] hd disj
    by (simp add: distinct_map inj_on_def)
qed

lemma set_pairs:
  "(b, p) \<in> set (concat (map (\<lambda>(b, row). map (Pair b) row) (enumerate 0 rows)))
   \<longleftrightarrow> b < length rows \<and> p \<in> set (rows ! b)"
proof -
  have "(b, p) \<in> set (concat (map (\<lambda>(b, row). map (Pair b) row) (enumerate 0 rows)))
      \<longleftrightarrow> (\<exists>row. (b, row) \<in> set (enumerate 0 rows) \<and> p \<in> set row)"
    by force
  also have "\<dots> \<longleftrightarrow> b < length rows \<and> p \<in> set (rows ! b)"
    by (auto simp: in_set_enumerate_eq)
  finally show ?thesis .
qed

lemma set_zipped:
  "b < length rows \<Longrightarrow> r < length (rows ! b) \<Longrightarrow> length (rows ! b) \<le> length (u ! b) \<Longrightarrow>
   ((b, rows ! b ! r), u ! b ! r)
     \<in> set (concat (map (\<lambda>(b, row). zip (map (Pair b) row) (take (length row) (u ! b)))
         (enumerate 0 rows)))"
proof -
  assume b: "b < length rows" and r: "r < length (rows ! b)" and l: "length (rows ! b) \<le> length (u ! b)"
  have "(b, rows ! b) \<in> set (enumerate 0 rows)" using b by (simp add: in_set_enumerate_eq)
  moreover have "((b, rows ! b ! r), u ! b ! r)
      \<in> set (zip (map (Pair b) (rows ! b)) (take (length (rows ! b)) (u ! b)))"
    using r l by (auto simp: in_set_zip intro!: exI[of _ r])
  ultimately show ?thesis by (auto intro!: bexI[of _ "(b, rows ! b)"])
qed

text \<open>
  Claim C4 (cache update locality). For a prior cache, an index (dense or ragged) whose
  positions lie inside the cache rows and are distinct within each row, and an update
  that has a value for every index position, \<open>cache_update\<close> succeeds, keeps the shape
  of the cache, holds the \<open>r\<close>-th update value of row \<open>b\<close> at the \<open>r\<close>-th position of
  the index row \<open>b\<close>, and equals the prior cache at every other (row, position).
\<close>

theorem cache_update_locality:
  assumes rows: "length (from_tensor index) \<le> length cache"
      "length (from_tensor index) \<le> length update"
    and vals: "\<forall>b < length (from_tensor index). length (from_tensor index ! b) \<le> length (update ! b)"
    and rng: "\<forall>b < length (from_tensor index). \<forall>p \<in> set (from_tensor index ! b).
                0 \<le> p \<and> p < int (length (cache ! b))"
    and uniq: "\<forall>b < length (from_tensor index). distinct (from_tensor index ! b)"
  shows "\<exists>cache'. cache_update cache index update = Inr cache'
     \<and> length cache' = length cache
     \<and> (\<forall>b < length cache. length (cache' ! b) = length (cache ! b))
     \<and> (\<forall>b < length (from_tensor index). \<forall>r < length (from_tensor index ! b).
           cache' ! b ! nat (from_tensor index ! b ! r) = update ! b ! r)
     \<and> (\<forall>b p. \<not> (b < length (from_tensor index) \<and> int p \<in> set (from_tensor index ! b))
           \<longrightarrow> cache' ! b ! p = cache ! b ! p)"
proof -
  let ?rows = "from_tensor index"
  let ?is = "concat (map (\<lambda>(b, row). map (Pair b) row) (enumerate 0 ?rows))"
  let ?vs = "concat (map (\<lambda>(b, row). take (length row) (update ! b)) (enumerate 0 ?rows))"
  have g: "gather_nd update (zip (value_rowids ?rows)
             (flat_values (ragged_range (row_lengths ?rows)))) = Inr ?vs"
    unfolding gather_index_eq
    using gather_nd_rows[of ?rows 0 update] rows(2) vals by simp
  have run: "cache_update cache index update = scatter_update cache ?is ?vs"
    by (simp add: cache_update_def Let_def g scatter_index_eq)
  have z: "length ?is = length ?vs"
      "zip ?is ?vs = concat (map (\<lambda>(b, row). zip (map (Pair b) row)
          (take (length row) (update ! b))) (enumerate 0 ?rows))"
    using zip_scatter_gathered[of ?rows update 0] vals by simp_all
  have inr: "\<forall>(b, p) \<in> set ?is. b < length cache \<and> 0 \<le> p \<and> nat p < length (cache ! b)"
  proof -
    have "b < length cache \<and> 0 \<le> p \<and> nat p < length (cache ! b)" if "(b, p) \<in> set ?is" for b p
    proof -
      from that have "b < length ?rows \<and> p \<in> set (?rows ! b)" by (simp only: set_pairs)
      with rng have "0 \<le> p \<and> p < int (length (cache ! b))" by blast
      then have "0 \<le> p \<and> nat p < length (cache ! b)" by linarith
      with \<open>b < length ?rows \<and> p \<in> set (?rows ! b)\<close> rows(1) show ?thesis by simp
    qed
    then show ?thesis by blast
  qed
  have d: "distinct ?is" using distinct_pairs[of ?rows 0] uniq by simp
  from scatter_update_frame[OF z(1) inr] d
  obtain c' where c': "scatter_update cache ?is ?vs = Inr c'" "length c' = length cache"
    "\<forall>b < length cache. length (c' ! b) = length (cache ! b)"
    "\<forall>b p. (b, int p) \<notin> set ?is \<longrightarrow> c' ! b ! p = cache ! b ! p"
    "\<forall>(k, v) \<in> set (zip ?is ?vs). c' ! fst k ! nat (snd k) = v"
    by blast
  have w: "\<forall>b < length ?rows. \<forall>r < length (?rows ! b). c' ! b ! nat (?rows ! b ! r) = update ! b ! r"
  proof (intro allI impI)
    fix b r assume b: "b < length ?rows" and r: "r < length (?rows ! b)"
    with vals have "((b, ?rows ! b ! r), update ! b ! r) \<in> set (zip ?is ?vs)"
      unfolding z(2) by (intro set_zipped) auto
    with c'(5) show "c' ! b ! nat (?rows ! b ! r) = update ! b ! r" by fastforce
  qed
  have f: "\<forall>b p. \<not> (b < length ?rows \<and> int p \<in> set (?rows ! b)) \<longrightarrow> c' ! b ! p = cache ! b ! p"
    using c'(4)[unfolded set_pairs] by simp
  show ?thesis using run c'(1,2,3) w f by simp
qed

theorem cache_update_locality_witness:
  "(\<exists>cache'. cache_update [[0, 0, 0], [0, 0, 0 :: nat]] (RaggedTensor [[0, 1], [2]]) [[7, 8], [9, 0]]
       = Inr cache'
     \<and> cache' ! 0 ! 0 = 7 \<and> cache' ! 0 ! 1 = 8 \<and> cache' ! 1 ! 2 = 9
     \<and> cache' ! 0 ! 2 = 0 \<and> cache' ! 1 ! 0 = 0 \<and> cache' ! 1 ! 1 = 0)
   \<and> (\<exists>cache'. cache_update [[0, 0, 0], [0, 0, 0 :: nat]] (Tensor [[1], [2]]) [[7], [9]]
       = Inr cache'
     \<and> cache' ! 0 ! 1 = 7 \<and> cache' ! 1 ! 2 = 9
     \<and> cache' ! 0 ! 0 = 0 \<and> cache' ! 0 ! 2 = 0 \<and> cache' ! 1 ! 0 = 0 \<and> cache' ! 1 ! 1 = 0)"
proof -
  let ?C = "[[0, 0, 0], [0, 0, 0 :: nat]]"
  let ?I = "RaggedTensor [[0, 1], [2]]"
  let ?U = "[[7, 8], [9, 0 :: nat]]"
  have h1: "length (from_tensor ?I) \<le> length ?C" by simp
  have h2: "length (from_tensor ?I) \<le> length ?U" by simp
  have h3: "\<forall>b < length (from_tensor ?I). length (from_tensor ?I ! b) \<le> length (?U ! b)"
    by (auto simp: less_Suc_eq numeral_2_eq_2)
  have h4: "\<forall>b < length (from_tensor ?I). \<forall>p \<in> set (from_tensor ?I ! b).
              0 \<le> p \<and> p < int (length (?C ! b))"
    by (auto simp: less_Suc_eq numeral_2_eq_2)
  have h5: "\<forall>b < length (from_tensor ?I). distinct (from_tensor ?I ! b)"
    by (auto simp: less_Suc_eq numeral_2_eq_2)
  from cache_update_locality[OF h1 h2 h3 h4 h5]
  obtain c' where run: "cache_update ?C ?I ?U = Inr c'"
    and w: "\<forall>b < length (from_tensor ?I). \<forall>r < length (from_tensor ?I ! b).
              c' ! b ! nat (from_tensor ?I ! b ! r) = ?U ! b ! r"
    and f: "\<forall>b p. \<not> (b < length (from_tensor ?I) \<and> int p \<in> set (from_tensor ?I ! b))
              \<longrightarrow> c' ! b ! p = ?C ! b ! p"
    by blast
  from w[rule_format, of 0 0] have a: "c' ! 0 ! 0 = 7" by simp
  from w[rule_format, of 0 1] have b: "c' ! 0 ! 1 = 8" by simp
  from w[rule_format, of 1 0] have c: "c' ! 1 ! 2 = 9" by simp
  from f[rule_format, of 0 2] have d: "c' ! 0 ! 2 = 0" by simp
  from f[rule_format, of 1 0] have e: "c' ! 1 ! 0 = 0" by simp
  from f[rule_format, of 1 1] have g: "c' ! 1 ! 1 = 0" by simp
  have ragged: "\<exists>cache'. cache_update ?C ?I ?U = Inr cache'
     \<and> cache' ! 0 ! 0 = 7 \<and> cache' ! 0 ! 1 = 8 \<and> cache' ! 1 ! 2 = 9
     \<and> cache' ! 0 ! 2 = 0 \<and> cache' ! 1 ! 0 = 0 \<and> cache' ! 1 ! 1 = 0"
    using run a b c d e g by blast
  let ?J = "Tensor [[1], [2]]"
  let ?V = "[[7], [9 :: nat]]"
  have k1: "length (from_tensor ?J) \<le> length ?C" by simp
  have k2: "length (from_tensor ?J) \<le> length ?V" by simp
  have k3: "\<forall>b < length (from_tensor ?J). length (from_tensor ?J ! b) \<le> length (?V ! b)"
    by (auto simp: less_Suc_eq numeral_2_eq_2)
  have k4: "\<forall>b < length (from_tensor ?J). \<forall>p \<in> set (from_tensor ?J ! b).
              0 \<le> p \<and> p < int (length (?C ! b))"
    by (auto simp: less_Suc_eq numeral_2_eq_2)
  have k5: "\<forall>b < length (from_tensor ?J). distinct (from_tensor ?J ! b)"
    by (auto simp: less_Suc_eq numeral_2_eq_2)
  from cache_update_locality[OF k1 k2 k3 k4 k5]
  obtain d' where run': "cache_update ?C ?J ?V = Inr d'"
    and w': "\<forall>b < length (from_tensor ?J). \<forall>r < length (from_tensor ?J ! b).
              d' ! b ! nat (from_tensor ?J ! b ! r) = ?V ! b ! r"
    and f': "\<forall>b p. \<not> (b < length (from_tensor ?J) \<and> int p \<in> set (from_tensor ?J ! b))
              \<longrightarrow> d' ! b ! p = ?C ! b ! p"
    by blast
  from w'[rule_format, of 0 0] have a': "d' ! 0 ! 1 = 7" by simp
  from w'[rule_format, of 1 0] have b': "d' ! 1 ! 2 = 9" by simp
  from f'[rule_format, of 0 0] have c': "d' ! 0 ! 0 = 0" by simp
  from f'[rule_format, of 0 2] have d'': "d' ! 0 ! 2 = 0" by simp
  from f'[rule_format, of 1 0] have e': "d' ! 1 ! 0 = 0" by simp
  from f'[rule_format, of 1 1] have g': "d' ! 1 ! 1 = 0" by simp
  have dense: "\<exists>cache'. cache_update ?C ?J ?V = Inr cache'
     \<and> cache' ! 0 ! 1 = 7 \<and> cache' ! 1 ! 2 = 9
     \<and> cache' ! 0 ! 0 = 0 \<and> cache' ! 0 ! 2 = 0 \<and> cache' ! 1 ! 0 = 0 \<and> cache' ! 1 ! 1 = 0"
    using run' a' b' c' d'' e' g' by blast
  from ragged dense show ?thesis by (rule conjI)
qed

section \<open>Properties of the sampling policies\<close>

lemma sequence_Inr: "sequence (map (\<lambda>x. Inr (f x)) xs) = Inr (map f xs)"
  by (induction xs) simp_all

lemma sequence_all_Inr:
  "(\<And>x. x \<in> set xs \<Longrightarrow> f x = Inr (g x)) \<Longrightarrow> sequence (map f xs) = Inr (map g xs)"
  by (induction xs) simp_all















section \<open>Properties of the constructors\<close>

text \<open>
  Claim C10 (a tokenizer without an end token cannot be constructed), as amended. For
  every construction with \<^verbatim>\<open>add_eos=False\<close>, \<open>Tokenizer_init\<close> raises before any
  vocabulary or lookup table is built (no event): a \<open>TypeError\<close> from decrementing the
  end token id \<^verbatim>\<open>None\<close> when \<^verbatim>\<open>sequence_length\<close> passes the check at the top of the
  constructor (it is falsy or an int), and the \<open>ValueError\<close> of that check otherwise.
\<close>

theorem Tokenizer_init_without_eos:
  "\<not> arg_add_eos a \<Longrightarrow>
   Tokenizer_init a =
     (if truthy (arg_sequence_length a) \<and> \<not> isinstance_int (arg_sequence_length a)
      then (Inl ValueError, []) else (Inl TypeError, []))"
  by (simp add: Tokenizer_init_def Let_def)

theorem Tokenizer_init_without_eos_witness:
  "Tokenizer_init default_args = (Inl TypeError, [])"
proof -
  have "\<not> arg_add_eos default_args" by (simp add: default_args_def)
  from Tokenizer_init_without_eos[OF this] show ?thesis by (simp add: default_args_def)
qed

text \<open>
  The claim as stated, a \<open>TypeError\<close> for every construction with \<^verbatim>\<open>add_eos=False\<close>,
  fails for \<^verbatim>\<open>Tokenizer(sequence_length=2.5)\<close>: the check of \<^verbatim>\<open>sequence_length\<close> comes
  first and raises a \<open>ValueError\<close>.
\<close>

theorem Tokenizer_init_without_eos_counterexample:
  "\<not> arg_add_eos (default_args\<lparr>arg_sequence_length := PyFloat (5 / 2)\<rparr>)
   \<and> Tokenizer_init (default_args\<lparr>arg_sequence_length := PyFloat (5 / 2)\<rparr>) = (Inl ValueError, [])
   \<and> fst (Tokenizer_init (default_args\<lparr>arg_sequence_length := PyFloat (5 / 2)\<rparr>)) \<noteq> Inl TypeError"
  by (simp add: Tokenizer_init_def default_args_def)

text \<open>
  Claim C6 (construction of a sampler). For a tokenizer whose begin and end tokens are
  \<^verbatim>\<open>None\<close> or non-empty strings (\<^verbatim>\<open>Tokenizer.__init__\<close> assigns \<^verbatim>\<open>None\<close> or the
  constants \<^verbatim>\<open>[bos]\<close>, \<^verbatim>\<open>[eos]\<close>), \<open>Sampler_init\<close> raises a \<open>ValueError\<close> if and only if
  the begin token or the end token is missing; otherwise it returns the sampler with the
  fields it was given. In both cases no event happens: construction does no
  tokenization, priming or decode step.
\<close>

theorem Sampler_init_raises_iff:
  assumes "bos_token tk \<noteq> Some []" and "eos_token tk \<noteq> Some []"
  shows "Sampler_init m tk temp eagerly =
     (if bos_token tk = None \<or> eos_token tk = None then (Inl ValueError, [])
      else (Inr \<lparr> model = m, tokenizer = tk, temperature = temp, run_eagerly = eagerly,
                  sampler_k = None \<rparr>, []))"
proof -
  have "str_truthy (bos_token tk) \<longleftrightarrow> bos_token tk \<noteq> None"
    using assms(1) by (cases "bos_token tk") auto
  moreover have "str_truthy (eos_token tk) \<longleftrightarrow> eos_token tk \<noteq> None"
    using assms(2) by (cases "eos_token tk") auto
  ultimately show ?thesis by (simp add: Sampler_init_def)
qed

theorem Sampler_init_raises_iff_witness:
  "Sampler_init stub_model scenario_tokenizer 1 False =
     (Inr \<lparr> model = stub_model, tokenizer = scenario_tokenizer, temperature = 1,
            run_eagerly = False, sampler_k = None \<rparr>, [])
   \<and> Sampler_init stub_model (scenario_tokenizer\<lparr>eos_token := None\<rparr>) 1 False = (Inl ValueError, [])"
proof -
  have a: "bos_token scenario_tokenizer \<noteq> Some []" "eos_token scenario_tokenizer \<noteq> Some []"
    by (simp_all add: scenario_tokenizer_def)
  have b: "bos_token (scenario_tokenizer\<lparr>eos_token := None\<rparr>) \<noteq> Some []"
    "eos_token (scenario_tokenizer\<lparr>eos_token := None\<rparr>) \<noteq> Some []"
    by (simp_all add: scenario_tokenizer_def)
  from Sampler_init_raises_iff[OF a, of stub_model 1 False]
       Sampler_init_raises_iff[OF b, of stub_model 1 False]
  show ?thesis by (simp add: scenario_tokenizer_def)
qed

section \<open>Properties of \<open>sample\<close>\<close>

text \<open>The scenario's tokenizer is the one the constructor builds from the scenario's
  arguments.\<close>

lemma scenario_tokenizer_built:
  "Tokenizer_init scenario_args = (Inr scenario_tokenizer, [CreateVocab, CreateLookupTables])"
  by (simp add: Tokenizer_init_def scenario_args_def default_args_def scenario_tokenizer_def
      scenario_vocabulary_def create_vocab_def create_lookup_tables_def
      PAD_TOKEN_def OOV_TOKEN_def BOS_TOKEN_def EOS_TOKEN_def PAD_TOKEN_ID_def OOV_TOKEN_ID_def)

lemma prepare_not_string:
  assumes "\<not> is_string t"
  shows "prepare S t enc = (Inl (if run_eagerly S then ValueError else TypeError), [Tokenize])"
  using assms
  by (cases t) (simp_all add: prepare_def tokenize_in_mode_def strings_join_def)

text \<open>
  Claim C7 (element type of the sequence inputs), as amended. When the decoder sequence
  input is not a tensor and its conversion does not hold strings, \<open>sample\<close> raises a
  \<open>ValueError\<close> before any event; the same holds for an encoder sequence input that is
  not a tensor, once the decoder sequence input has passed. An input that is a tensor
  already is not checked: \<open>sample\<close> hands it to \<open>Sampler_call\<close> as it is. A decoder
  tensor that does not hold strings then fails in the string join at the start of
  tokenization, with a \<open>ValueError\<close> when the sampler runs eagerly: tokenization is the
  only event, there is no priming forward pass and no decode step. For an encoder tensor
  no element type is checked anywhere.
\<close>

theorem sample_checks_converted_inputs_only:
  "(\<not> is_string t \<longrightarrow> sample S draws (ConvertibleInput t) enc = Some (Inl ValueError, []))
   \<and> (\<not> is_string e \<longrightarrow> convert_checked d = Inr t \<longrightarrow>
        sample S draws d (Some (ConvertibleInput e)) = Some (Inl ValueError, []))
   \<and> (convert_checked d = Inr t \<longrightarrow> sample S draws d None = Sampler_call S draws t None)
   \<and> (convert_checked d = Inr t \<longrightarrow>
        sample S draws d (Some (TensorInput e)) = Sampler_call S draws t (Some e))
   \<and> (\<not> is_string t \<longrightarrow> (\<forall>e. enc = Some (ConvertibleInput e) \<longrightarrow> is_string e) \<longrightarrow>
        (\<exists>err. sample S draws (TensorInput t) enc = Some (Inl err, [Tokenize])
           \<and> (run_eagerly S \<longrightarrow> err = ValueError)))"
proof (intro conjI impI)
  assume "\<not> is_string t"
  then show "sample S draws (ConvertibleInput t) enc = Some (Inl ValueError, [])"
    by (simp add: sample_def)
next
  assume "\<not> is_string e" and "convert_checked d = Inr t"
  then show "sample S draws d (Some (ConvertibleInput e)) = Some (Inl ValueError, [])"
    by (simp add: sample_def)
next
  assume "convert_checked d = Inr t"
  then show "sample S draws d None = Sampler_call S draws t None"
    by (simp add: sample_def)
next
  assume "convert_checked d = Inr t"
  then show "sample S draws d (Some (TensorInput e)) = Sampler_call S draws t (Some e)"
    by (simp add: sample_def)
next
  assume t: "\<not> is_string t" and enc: "\<forall>e. enc = Some (ConvertibleInput e) \<longrightarrow> is_string e"
  have call: "Sampler_call S draws t enc' =
      Some (Inl (if run_eagerly S then ValueError else TypeError), [Tokenize])" for enc'
    by (simp add: Sampler_call_def prepare_not_string[OF t])
  have "sample S draws (TensorInput t) enc =
      Some (Inl (if run_eagerly S then ValueError else TypeError), [Tokenize])"
  proof (cases enc)
    case None
    then show ?thesis by (simp add: sample_def call)
  next
    case (Some es)
    show ?thesis
    proof (cases es)
      case (TensorInput e)
      with Some show ?thesis by (simp add: sample_def call)
    next
      case (ConvertibleInput e)
      with Some enc have "is_string e" by simp
      with Some ConvertibleInput show ?thesis by (simp add: sample_def call)
    qed
  qed
  then show "\<exists>err. sample S draws (TensorInput t) enc = Some (Inl err, [Tokenize])
      \<and> (run_eagerly S \<longrightarrow> err = ValueError)"
    by simp
qed

theorem sample_checks_converted_inputs_only_witness:
  "sample scenario_sampler (\<lambda>t b r. 0) (ConvertibleInput (Ints [1])) None = Some (Inl ValueError, [])
   \<and> sample scenario_sampler (\<lambda>t b r. 0) (ConvertibleInput (Strings [''A'']))
        (Some (ConvertibleInput (Floats [1]))) = Some (Inl ValueError, [])
   \<and> sample (scenario_sampler\<lparr>run_eagerly := True\<rparr>) (\<lambda>t b r. 0) (TensorInput (Ints [1])) None
        = Some (Inl ValueError, [Tokenize])"
proof -
  have a: "\<not> is_string (Ints [1])" and b: "\<not> is_string (Floats [1])" by simp_all
  have c: "convert_checked (ConvertibleInput (Strings [''A''])) = Inr (Strings [''A''])" by simp
  from sample_checks_converted_inputs_only[where t = "Ints [1]" and S = scenario_sampler
        and draws = "\<lambda>t b r. 0" and enc = None] a
  have x: "sample scenario_sampler (\<lambda>t b r. 0) (ConvertibleInput (Ints [1])) None
      = Some (Inl ValueError, [])" by blast
  from sample_checks_converted_inputs_only[where e = "Floats [1]" and S = scenario_sampler
        and draws = "\<lambda>t b r. 0" and d = "ConvertibleInput (Strings [''A''])"
        and t = "Strings [''A'']"] b c
  have y: "sample scenario_sampler (\<lambda>t b r. 0) (ConvertibleInput (Strings [''A'']))
      (Some (ConvertibleInput (Floats [1]))) = Some (Inl ValueError, [])" by blast
  have e: "run_eagerly (scenario_sampler\<lparr>run_eagerly := True\<rparr>)" by simp
  have n: "\<forall>e. (None :: sequence_input option) = Some (ConvertibleInput e) \<longrightarrow> is_string e"
    by simp
  from sample_checks_converted_inputs_only[where t = "Ints [1]"
        and S = "scenario_sampler\<lparr>run_eagerly := True\<rparr>"
        and draws = "\<lambda>t b r. 0" and enc = None, THEN conjunct2, THEN conjunct2,
        THEN conjunct2, THEN conjunct2, THEN mp, OF a, THEN mp, OF n]
  obtain err where "sample (scenario_sampler\<lparr>run_eagerly := True\<rparr>) (\<lambda>t b r. 0)
        (TensorInput (Ints [1])) None = Some (Inl err, [Tokenize])"
    and "run_eagerly (scenario_sampler\<lparr>run_eagerly := True\<rparr>) \<longrightarrow> err = ValueError"
    by (elim exE conjE)
  with e have z: "sample (scenario_sampler\<lparr>run_eagerly := True\<rparr>) (\<lambda>t b r. 0)
        (TensorInput (Ints [1])) None = Some (Inl ValueError, [Tokenize])" by simp
  from x y z show ?thesis by simp
qed

text \<open>
  The claim as stated fails for an encoder sequence input that is a tensor already, here
  for a sampler that runs eagerly and a float tensor: tokenization and the priming
  forward pass run before an error is raised, and the error is the failed unpacking of
  the model's three results, not a check of the element type.
\<close>

lemma prepare_float_encoder:
  "prepare (scenario_sampler\<lparr>run_eagerly := True\<rparr>) (Strings [''A'']) (Some (Floats [1]))
     = (Inl ValueError, [Tokenize, Prime])"
  by code_simp

theorem sample_tensor_input_counterexample:
  "\<not> is_string (Floats [1])
   \<and> sample (scenario_sampler\<lparr>run_eagerly := True\<rparr>) (\<lambda>t b r. 0)
       (ConvertibleInput (Strings [''A''])) (Some (TensorInput (Floats [1])))
       = Some (Inl ValueError, [Tokenize, Prime])"
  by (simp add: sample_def Sampler_call_def prepare_float_encoder)

section \<open>Properties of priming and generation\<close>

text \<open>
  Claim C1 (the step index after priming), evaluated on the code. For the batch
  \<^verbatim>\<open>["A"]\<close> the prompt tokens are \<open>[bos], A\<close>, so the prompt length is 2, but the
  self-attention cache update index that \<open>prepare\<close> returns is \<open>[[0]]\<close>: the source
  overwrites the index with \<^verbatim>\<open>ops.zeros(shape=(batch_size, 1))\<close> after the priming
  pass. The claim says the index equals the prompt length.
\<close>

theorem prepare_index_is_zero:
  "prepare scenario_sampler (Strings [''A'']) None
     = (Inr ([4], [[2, 4]], Some (), Some (Tensor [[0]]), None, None, None), [Tokenize, Prime])
   \<and> row_lengths [[2, 4 :: int]] = [2]"
  by code_simp

subsection \<open>The generation loop\<close>

lemma generate_loop_stops_aux:
  assumes "generate_loop S draws v = Some r"
  shows "\<forall>v'. r = Inr v' \<longrightarrow> \<not> generate_cond S (tokens v')"
proof (rule generate_loop.raw_induct[where P = "\<lambda>S draws v r. \<forall>v'. r = Inr v' \<longrightarrow> \<not> generate_cond S (tokens v')", OF _ assms], goal_cases)
  case (1 loop S draws v r)
  show ?case
  proof (cases "generate_cond S (tokens v)")
    case False
    with 1(2) show ?thesis by auto
  next
    case True
    show ?thesis
    proof (cases "generate_step S (draws (length (tokens v))) v")
      case (Inl e)
      with True 1(2) show ?thesis by auto
    next
      case (Inr v1)
      with True 1(2) have "loop S draws v1 = Some r" by simp
      then show ?thesis by (rule 1(1))
    qed
  qed
qed

lemma generate_cond_iff:
  assumes "\<forall>row \<in> set rs. length row = length r"
  shows "generate_cond S (r # rs) \<longleftrightarrow>
     (\<exists>b < length r. \<forall>row \<in> set (r # rs). Some (row ! b) \<noteq> eos_token_id (tokenizer S))"
proof -
  have *: "list_ex (\<lambda>row. row ! b) (map (map (\<lambda>t. Some t = eos_token_id (tokenizer S))) (r # rs))
      \<longleftrightarrow> (\<exists>row \<in> set (r # rs). Some (row ! b) = eos_token_id (tokenizer S))"
    if "b < length r" for b
    using that assms by (auto simp: list_ex_iff)
  have "generate_cond S (r # rs) \<longleftrightarrow>
      (\<exists>b \<in> set [0..<length r]. \<not> list_ex (\<lambda>row. row ! b)
          (map (map (\<lambda>t. Some t = eos_token_id (tokenizer S))) (r # rs)))"
    unfolding generate_cond_def any_axis0_def Let_def
    by (simp add: list_all_iff)
  also have "\<dots> \<longleftrightarrow> (\<exists>b < length r. \<not> (\<exists>row \<in> set (r # rs). Some (row ! b) = eos_token_id (tokenizer S)))"
    using * by (metis atLeastLessThan_iff set_upt le0)
  finally show ?thesis by blast
qed

lemma sequence_Inr_length: "sequence rs = Inr xs \<Longrightarrow> length xs = length rs"
proof (induction rs arbitrary: xs)
  case Nil
  then show ?case by simp
next
  case (Cons r rs)
  show ?case
  proof (cases r)
    case (Inl e)
    with Cons.prems show ?thesis by simp
  next
    case (Inr x)
    with Cons.prems obtain ys where ys: "sequence rs = Inr ys" and xs: "xs = x # ys"
      by (cases "sequence rs") auto
    from Cons.IH[OF ys] xs show ?thesis by simp
  qed
qed

lemma get_next_token_length:
  assumes "get_next_token S draw logits = Inr next_token"
  shows "length next_token = length logits"
proof (cases "sampler_k S")
  case None
  with assms show ?thesis
    by (auto simp: get_next_token_def Sampler_get_next_token_def categorical_def)
next
  case (Some k0)
  with assms have t: "TopKSampler_get_next_token k0 (temperature S) draw logits = Inr next_token"
    by (simp add: get_next_token_def)
  then obtain vals indices where tk: "top_k logits k0 = Inr (vals, indices)"
    by (cases "top_k logits k0") (auto simp: TopKSampler_get_next_token_def)
  then have li: "length indices = length logits"
    by (auto simp: top_k_def Let_def split: if_splits)
  from t tk have ta: "take_along_axis indices
      (Sampler_get_next_token (temperature S) draw vals) = Inr next_token"
    by (simp add: TopKSampler_get_next_token_def)
  then have eq: "length indices = length (Sampler_get_next_token (temperature S) draw vals)"
    by (auto simp: take_along_axis_def split: if_splits)
  from ta eq have "length next_token = length indices"
    by (auto simp: take_along_axis_def dest!: sequence_Inr_length split: if_splits)
  with li show ?thesis by simp
qed

lemma generate_step_appends:
  assumes "generate_step S draw v = Inr v'"
  shows "(\<exists>logits next_token.
            squeeze1 (fst (forward (model S)
                (map (\<lambda>t. [t]) (tokens v ! (length (tokens v) - 1)))
                (self_attention_cache v) (self_attention_cache_update_index v)
                (encoder_output v) (cross_attention_cache v)
                (cross_attention_cache_update_index v))) = Inr logits
          \<and> get_next_token S draw logits = Inr next_token
          \<and> length next_token = length logits
          \<and> list_all (\<lambda>tok. length tok = 1) next_token
          \<and> tokens v' = tokens v @ [map hd next_token])
   \<and> self_attention_cache_update_index v'
       = map_option increment (self_attention_cache_update_index v)
   \<and> events v' = events v @ [DecodeStep]"
proof -
  let ?f = "forward (model S)
                (map (\<lambda>t. [t]) (tokens v ! (length (tokens v) - 1)))
                (self_attention_cache v) (self_attention_cache_update_index v)
                (encoder_output v) (cross_attention_cache v)
                (cross_attention_cache_update_index v)"
  obtain x sc cc where f: "?f = (x, sc, cc)" by (cases ?f) auto
  from assms f obtain logits where l: "squeeze1 x = Inr logits"
    unfolding generate_step_def Let_def TransformerDecoder_call_def
    by (cases "squeeze1 x") (auto split: if_splits)
  from assms f l obtain next_token where n: "get_next_token S draw logits = Inr next_token"
    unfolding generate_step_def Let_def TransformerDecoder_call_def
    by (cases "get_next_token S draw logits") (auto split: if_splits)
  from assms f l n obtain row where r: "squeeze1 next_token = Inr row"
    unfolding generate_step_def Let_def TransformerDecoder_call_def
    by (cases "squeeze1 next_token") (auto split: if_splits)
  then have one: "list_all (\<lambda>tok. length tok = 1) next_token" and row: "row = map hd next_token"
    by (auto simp: squeeze1_def split: if_splits)
  from assms f l n r have v': "tokens v' = tokens v @ [row]"
    "self_attention_cache_update_index v'
       = map_option increment (self_attention_cache_update_index v)"
    "events v' = events v @ [DecodeStep]"
    unfolding generate_step_def Let_def TransformerDecoder_call_def
    by (auto split: if_splits)
  from f l n one row v' get_next_token_length[OF n] show ?thesis by simp
qed

text \<open>
  Claim C3 (the halting predicate of the generation loop), as amended. For a token
  buffer whose entries have one length (one token per batch row), the loop condition
  holds exactly when some batch row has no end token anywhere in the buffer. While the
  condition holds the loop runs one more step on the whole batch, otherwise it returns
  its variables. A step gives the last buffered token of every row to the model and
  appends, for every row of the logits that the model returns, the token that
  \<open>get_next_token\<close> chooses from that row's logits; it increments the cache update
  index. Nothing in a step looks at what a row has emitted before, so a row that has the
  end token already is stepped like the others and gets the token chosen for it. When
  the loop returns, the condition is false: every batch row has the end token somewhere
  in the buffer. The buffer starts with the seed, the last prompt token of every row, so
  a row whose prompt ends with the end token counts as finished without having emitted
  anything.
\<close>

theorem generation_loop_halting:
  "((\<forall>row \<in> set rs. length row = length r) \<longrightarrow>
      (generate_cond S (r # rs) \<longleftrightarrow>
         (\<exists>b < length r. \<forall>row \<in> set (r # rs). Some (row ! b) \<noteq> eos_token_id (tokenizer S))))
   \<and> (generate_cond S (tokens v) \<longrightarrow>
        generate_loop S draws v =
          (case generate_step S (draws (length (tokens v))) v of
             Inl e \<Rightarrow> Some (Inl e)
           | Inr v1 \<Rightarrow> generate_loop S draws v1))
   \<and> (\<not> generate_cond S (tokens v) \<longrightarrow> generate_loop S draws v = Some (Inr v))
   \<and> (generate_step S draw v = Inr v' \<longrightarrow>
        (\<exists>logits next_token.
            squeeze1 (fst (forward (model S)
                (map (\<lambda>t. [t]) (tokens v ! (length (tokens v) - 1)))
                (self_attention_cache v) (self_attention_cache_update_index v)
                (encoder_output v) (cross_attention_cache v)
                (cross_attention_cache_update_index v))) = Inr logits
          \<and> get_next_token S draw logits = Inr next_token
          \<and> length next_token = length logits
          \<and> list_all (\<lambda>tok. length tok = 1) next_token
          \<and> tokens v' = tokens v @ [map hd next_token])
        \<and> self_attention_cache_update_index v'
            = map_option increment (self_attention_cache_update_index v)
        \<and> events v' = events v @ [DecodeStep])
   \<and> (generate_loop S draws v = Some (Inr v'') \<longrightarrow> \<not> generate_cond S (tokens v''))"
proof (intro conjI impI)
  assume "\<forall>row \<in> set rs. length row = length r"
  then show "generate_cond S (r # rs) \<longleftrightarrow>
      (\<exists>b < length r. \<forall>row \<in> set (r # rs). Some (row ! b) \<noteq> eos_token_id (tokenizer S))"
    by (rule generate_cond_iff)
next
  assume "generate_cond S (tokens v)"
  then show "generate_loop S draws v =
      (case generate_step S (draws (length (tokens v))) v of
         Inl e \<Rightarrow> Some (Inl e)
       | Inr v1 \<Rightarrow> generate_loop S draws v1)"
    by (subst generate_loop.simps) simp
next
  assume "\<not> generate_cond S (tokens v)"
  then show "generate_loop S draws v = Some (Inr v)"
    by (subst generate_loop.simps) simp
next
  assume s: "generate_step S draw v = Inr v'"
  from generate_step_appends[OF s] show "\<exists>logits next_token.
            squeeze1 (fst (forward (model S)
                (map (\<lambda>t. [t]) (tokens v ! (length (tokens v) - 1)))
                (self_attention_cache v) (self_attention_cache_update_index v)
                (encoder_output v) (cross_attention_cache v)
                (cross_attention_cache_update_index v))) = Inr logits
          \<and> get_next_token S draw logits = Inr next_token
          \<and> length next_token = length logits
          \<and> list_all (\<lambda>tok. length tok = 1) next_token
          \<and> tokens v' = tokens v @ [map hd next_token]" by (rule conjunct1)
  from generate_step_appends[OF s] show "self_attention_cache_update_index v'
      = map_option increment (self_attention_cache_update_index v)" by blast
  from generate_step_appends[OF s] show "events v' = events v @ [DecodeStep]" by blast
next
  assume "generate_loop S draws v = Some (Inr v'')"
  from generate_loop_stops_aux[OF this] show "\<not> generate_cond S (tokens v'')" by blast
qed

text \<open>
  A run of two rows with the stub that goes on after the end token. The seeds are \<open>B\<close>
  and \<open>A\<close>. The first step emits the end token for the first row and \<open>B\<close> for the
  second; the second step emits \<open>A\<close> for the first row, which has the end token already,
  and the end token for the second row; then the loop stops.
\<close>

lemma two_rows_cond:
  "generate_cond restart_sampler [[5, 4]]"
  "generate_cond restart_sampler [[5, 4], [3, 5]]"
  "\<not> generate_cond restart_sampler [[5, 4], [3, 5], [4, 3]]"
  by code_simp+

lemma two_rows_step1:
  "generate_step restart_sampler (\<lambda>b r. 0)
     \<lparr> tokens = [[5, 4]], self_attention_cache = Some (),
       self_attention_cache_update_index = Some (Tensor [[0], [0]]), encoder_output = None,
       cross_attention_cache = None, cross_attention_cache_update_index = None, events = [] \<rparr>
   = Inr \<lparr> tokens = [[5, 4], [3, 5]], self_attention_cache = Some (),
       self_attention_cache_update_index = Some (Tensor [[1], [1]]), encoder_output = None,
       cross_attention_cache = None, cross_attention_cache_update_index = None,
       events = [DecodeStep] \<rparr>"
  by code_simp

lemma two_rows_step2:
  "generate_step restart_sampler (\<lambda>b r. 0)
     \<lparr> tokens = [[5, 4], [3, 5]], self_attention_cache = Some (),
       self_attention_cache_update_index = Some (Tensor [[1], [1]]), encoder_output = None,
       cross_attention_cache = None, cross_attention_cache_update_index = None,
       events = [DecodeStep] \<rparr>
   = Inr \<lparr> tokens = [[5, 4], [3, 5], [4, 3]], self_attention_cache = Some (),
       self_attention_cache_update_index = Some (Tensor [[2], [2]]), encoder_output = None,
       cross_attention_cache = None, cross_attention_cache_update_index = None,
       events = [DecodeStep, DecodeStep] \<rparr>"
  by code_simp

theorem generation_loop_halting_witness:
  "generate_loop restart_sampler (\<lambda>t b r. 0)
     \<lparr> tokens = [[5, 4]], self_attention_cache = Some (),
       self_attention_cache_update_index = Some (Tensor [[0], [0]]), encoder_output = None,
       cross_attention_cache = None, cross_attention_cache_update_index = None, events = [] \<rparr>
   = Some (Inr \<lparr> tokens = [[5, 4], [3, 5], [4, 3]], self_attention_cache = Some (),
       self_attention_cache_update_index = Some (Tensor [[2], [2]]), encoder_output = None,
       cross_attention_cache = None, cross_attention_cache_update_index = None,
       events = [DecodeStep, DecodeStep] \<rparr>)
   \<and> eos_token_id (tokenizer restart_sampler) = Some 3
   \<and> (\<exists>logits next_token.
        squeeze1 (fst (forward (model restart_sampler) [[3], [5]] (Some ())
          (Some (Tensor [[1], [1]])) None None None)) = Inr logits
        \<and> get_next_token restart_sampler (\<lambda>b r. 0) logits = Inr next_token
        \<and> map hd next_token = [4, 3])"
proof -
  let ?d = "\<lambda>(t :: nat) (b :: nat) (r :: float32 list). 0 :: nat"
  let ?v0 = "\<lparr> tokens = [[5, 4]], self_attention_cache = Some (),
       self_attention_cache_update_index = Some (Tensor [[0], [0]]), encoder_output = None,
       cross_attention_cache = None, cross_attention_cache_update_index = None, events = [] \<rparr>"
  let ?v1 = "\<lparr> tokens = [[5, 4], [3, 5]], self_attention_cache = Some (),
       self_attention_cache_update_index = Some (Tensor [[1], [1]]), encoder_output = None,
       cross_attention_cache = None, cross_attention_cache_update_index = None,
       events = [DecodeStep] \<rparr>"
  let ?v2 = "\<lparr> tokens = [[5, 4], [3, 5], [4, 3]], self_attention_cache = Some (),
       self_attention_cache_update_index = Some (Tensor [[2], [2]]), encoder_output = None,
       cross_attention_cache = None, cross_attention_cache_update_index = None,
       events = [DecodeStep, DecodeStep] \<rparr>"
  have c0: "generate_cond restart_sampler (tokens ?v0)"
    and c1: "generate_cond restart_sampler (tokens ?v1)"
    and c2: "\<not> generate_cond restart_sampler (tokens ?v2)"
    using two_rows_cond by simp_all
  have "generate_loop restart_sampler ?d ?v0 = generate_loop restart_sampler ?d ?v1"
    using generation_loop_halting[where S = restart_sampler and draws = ?d and v = ?v0] c0
      two_rows_step1 by simp
  also have "\<dots> = generate_loop restart_sampler ?d ?v2"
    using generation_loop_halting[where S = restart_sampler and draws = ?d and v = ?v1] c1
      two_rows_step2 by simp
  also have "\<dots> = Some (Inr ?v2)"
    using generation_loop_halting[where S = restart_sampler and draws = ?d and v = ?v2] c2
    by blast
  finally have run: "generate_loop restart_sampler ?d ?v0 = Some (Inr ?v2)" .
  have eos: "eos_token_id (tokenizer restart_sampler) = Some 3"
    by (simp add: restart_sampler_def scenario_tokenizer_def)
  from generation_loop_halting[where S = restart_sampler and draw = "\<lambda>b r. 0" and v = ?v1
      and v' = ?v2, THEN conjunct2, THEN conjunct2, THEN conjunct2, THEN conjunct1, THEN mp,
      OF two_rows_step2, THEN conjunct1]
  have step: "\<exists>logits next_token.
        squeeze1 (fst (forward (model restart_sampler) [[3], [5]] (Some ())
          (Some (Tensor [[1], [1]])) None None None)) = Inr logits
        \<and> get_next_token restart_sampler (\<lambda>b r. 0) logits = Inr next_token
        \<and> map hd next_token = [4, 3]"
    by (elim exE conjE, intro exI conjI) simp_all
  from run eos step show ?thesis by simp
qed

text \<open>
  The claim as stated ends with: when the loop stops, every batch element has emitted the
  end token at least once. For the prompt \<^verbatim>\<open>"A[eos]"\<close> the seed is the end token (id 3),
  the condition is false at once, and the loop stops with the seed alone in the buffer:
  no decode step has run and the row has emitted nothing.
\<close>

lemma seed_eos_prepare:
  "prepare scenario_sampler (Strings [''A[eos]'']) None
   = (Inr ([3], [[2, 4, 3]], Some (), Some (Tensor [[0]]), None, None, None), [Tokenize, Prime])"
  by code_simp

lemma seed_eos_cond: "\<not> generate_cond scenario_sampler [[3]]"
  by code_simp

theorem generation_loop_seed_counterexample:
  "prepare scenario_sampler (Strings [''A[eos]'']) None
     = (Inr ([3], [[2, 4, 3]], Some (), Some (Tensor [[0]]), None, None, None), [Tokenize, Prime])
   \<and> generate_vars scenario_sampler (\<lambda>t b r. 0) [3] (Some ()) (Some (Tensor [[0]])) None None None
       [Tokenize, Prime]
     = Some (Inr \<lparr> tokens = [[3]], self_attention_cache = Some (),
         self_attention_cache_update_index = Some (Tensor [[0]]), encoder_output = None,
         cross_attention_cache = None, cross_attention_cache_update_index = None,
         events = [Tokenize, Prime] \<rparr>)
   \<and> DecodeStep \<notin> set [Tokenize, Prime]"
  by (simp add: seed_eos_prepare generate_vars_def seed_eos_cond generate_loop.simps)

subsection \<open>The scenario of the specification\<close>

lemma scenario_prepare:
  "prepare scenario_sampler (Strings [''A'']) None
   = (Inr ([4], [[2, 4]], Some (), Some (Tensor [[0]]), None, None, None), [Tokenize, Prime])"
  by code_simp

lemma scenario_cond:
  "generate_cond scenario_sampler [[4]]"
  "generate_cond scenario_sampler [[4], [5]]"
  "\<not> generate_cond scenario_sampler [[4], [5], [3]]"
  by code_simp+

lemma scenario_step1:
  "generate_step scenario_sampler (\<lambda>b r. 0)
     \<lparr> tokens = [[4]], self_attention_cache = Some (),
       self_attention_cache_update_index = Some (Tensor [[0]]), encoder_output = None,
       cross_attention_cache = None, cross_attention_cache_update_index = None,
       events = [Tokenize, Prime] \<rparr>
   = Inr \<lparr> tokens = [[4], [5]], self_attention_cache = Some (),
       self_attention_cache_update_index = Some (Tensor [[1]]), encoder_output = None,
       cross_attention_cache = None, cross_attention_cache_update_index = None,
       events = [Tokenize, Prime, DecodeStep] \<rparr>"
  by code_simp

lemma scenario_step2:
  "generate_step scenario_sampler (\<lambda>b r. 0)
     \<lparr> tokens = [[4], [5]], self_attention_cache = Some (),
       self_attention_cache_update_index = Some (Tensor [[1]]), encoder_output = None,
       cross_attention_cache = None, cross_attention_cache_update_index = None,
       events = [Tokenize, Prime, DecodeStep] \<rparr>
   = Inr \<lparr> tokens = [[4], [5], [3]], self_attention_cache = Some (),
       self_attention_cache_update_index = Some (Tensor [[2]]), encoder_output = None,
       cross_attention_cache = None, cross_attention_cache_update_index = None,
       events = [Tokenize, Prime, DecodeStep, DecodeStep] \<rparr>"
  by code_simp

lemma scenario_generate_vars:
  "generate_vars scenario_sampler (\<lambda>t b r. 0) [4] (Some ()) (Some (Tensor [[0]])) None None None
       [Tokenize, Prime]
   = Some (Inr \<lparr> tokens = [[4], [5], [3]], self_attention_cache = Some (),
       self_attention_cache_update_index = Some (Tensor [[2]]), encoder_output = None,
       cross_attention_cache = None, cross_attention_cache_update_index = None,
       events = [Tokenize, Prime, DecodeStep, DecodeStep] \<rparr>)"
  unfolding generate_vars_def
  apply simp
  apply (subst generate_loop.simps, simp add: scenario_cond scenario_step1)
  apply (subst generate_loop.simps, simp add: scenario_cond scenario_step2)
  apply (subst generate_loop.simps, simp add: scenario_cond)
  done

lemma scenario_detokenize:
  "detokenize scenario_tokenizer [[2, 4, 4, 5, 3]] = Inr [''AAB'']"
  by code_simp

text \<open>
  Claim C2 (the scenario), evaluated on the code. With the vocabulary
  \<open>[pad], [oov], [bos], [eos], A, B\<close>, the prompt \<^verbatim>\<open>"A"\<close> and the stub model that emits
  \<open>B\<close> and then the end token, \<open>sample\<close> runs exactly two decode steps but returns
  \<^verbatim>\<open>["AAB"]\<close>, not \<^verbatim>\<open>["AB"]\<close>: the token buffer starts with the last prompt token,
  which the decoder input holds as well, so that token is there twice when the two are
  concatenated. The cache update index at the end of the loop is \<open>[[2]]\<close>, not 3: it
  starts at 0 instead of the prompt length.
\<close>

theorem scenario_sample_returns_AAB:
  "sample scenario_sampler (\<lambda>t b r. 0) (ConvertibleInput (Strings [''A''])) None
     = Some (Inr [''AAB''], [Tokenize, Prime, DecodeStep, DecodeStep, Detokenize])
   \<and> generate_vars scenario_sampler (\<lambda>t b r. 0) [4] (Some ()) (Some (Tensor [[0]])) None None None
       [Tokenize, Prime]
     = Some (Inr \<lparr> tokens = [[4], [5], [3]], self_attention_cache = Some (),
         self_attention_cache_update_index = Some (Tensor [[2]]), encoder_output = None,
         cross_attention_cache = None, cross_attention_cache_update_index = None,
         events = [Tokenize, Prime, DecodeStep, DecodeStep] \<rparr>)"
proof -
  have t: "tokenizer scenario_sampler = scenario_tokenizer" by (simp add: scenario_sampler_def)
  have "Sampler_call scenario_sampler (\<lambda>t b r. 0) (Strings [''A'']) None
      = Some (Inr [''AAB''], [Tokenize, Prime, DecodeStep, DecodeStep, Detokenize])"
    by (simp add: Sampler_call_def scenario_prepare generate_def scenario_generate_vars
        unpack_array_def concatenate_axis1_def t scenario_detokenize)
  then show ?thesis by (simp add: sample_def scenario_generate_vars)
qed

section \<open>Properties of the self-attention mask\<close>

lemma causal_mask_nth:
  assumes "b < length (query_positions B Q idx)" "q < length (query_positions B Q idx ! b)" "j < T"
  shows "compute_causal_mask B T Q idx ! b ! q ! j \<longleftrightarrow> int j \<le> query_positions B Q idx ! b ! q"
  using assms by (simp add: compute_causal_mask_def Let_def)

lemma causal_mask_shape:
  "length (compute_causal_mask B T Q idx) = length (query_positions B Q idx)"
  "b < length (query_positions B Q idx) \<Longrightarrow>
     length (compute_causal_mask B T Q idx ! b) = length (query_positions B Q idx ! b)"
  "b < length (query_positions B Q idx) \<Longrightarrow> q < length (query_positions B Q idx ! b) \<Longrightarrow>
     length (compute_causal_mask B T Q idx ! b ! q) = T"
  by (simp_all add: compute_causal_mask_def Let_def)

lemma to_tensor_nth:
  "b < length r \<Longrightarrow>
   to_tensor d r ! b = r ! b @ replicate (foldr max (map length r) 0 - length (r ! b)) d"
  by (simp add: to_tensor_def Let_def)

lemma broadcast2_same:
  assumes "length xs = length ys"
    and "\<And>x y. (x, y) \<in> set (zip xs ys) \<Longrightarrow> f x y = Inr (g x y)"
  shows "broadcast2 f xs ys = Inr (map2 g xs ys)"
proof -
  have "sequence (map (\<lambda>(x, y). f x y) (zip xs ys)) = Inr (map (\<lambda>(x, y). g x y) (zip xs ys))"
    by (rule sequence_all_Inr) (use assms(2) in auto)
  with assms(1) show ?thesis by (simp add: broadcast2_def)
qed

lemma broadcast2_left1:
  assumes "\<And>y. y \<in> set ys \<Longrightarrow> f x y = Inr (g x y)"
  shows "broadcast2 f [x] ys = Inr (map (g x) ys)"
proof (cases "length ys = 1")
  case True
  then obtain y where ys: "ys = [y]" by (cases ys) auto
  with assms show ?thesis by (simp add: broadcast2_def)
next
  case False
  have "sequence (map (f x) ys) = Inr (map (g x) ys)"
    by (rule sequence_all_Inr) (rule assms)
  with False show ?thesis by (auto simp: broadcast2_def)
qed

lemma minimum_padding:
  assumes len: "length pm = length cm"
    and pw: "\<And>b. b < length pm \<Longrightarrow> length (pm ! b) = T"
    and cw: "\<And>b q. b < length cm \<Longrightarrow> q < length (cm ! b) \<Longrightarrow> length (cm ! b ! q) = T"
  shows "minimum (cast_int32 (BoolMask (map (\<lambda>row. [row]) pm))) (cast_int32 (BoolMask cm))
     = Inr (map2 (\<lambda>p c. map (\<lambda>cq. map2 min (map of_bool p) (map of_bool cq)) c) pm cm)"
proof -
  have inner: "broadcast2 (\<lambda>(x :: int) y. Inr (min x y) :: py_error + int) (map of_bool p) (map of_bool cq)
      = Inr (map2 min (map of_bool p) (map of_bool cq :: int list))"
    if "length p = length cq" for p cq :: "bool list"
    by (rule broadcast2_same) (use that in simp_all)
  have mid: "broadcast2 (broadcast2 (\<lambda>(x :: int) y. Inr (min x y) :: py_error + int)) [map of_bool p] (map (map of_bool) c)
      = Inr (map (\<lambda>cq. map2 min (map of_bool p) (map of_bool cq)) c)"
    if "\<And>cq. cq \<in> set c \<Longrightarrow> length p = length cq" for p and c :: "bool list list"
  proof -
    have "broadcast2 (broadcast2 (\<lambda>(x :: int) y. Inr (min x y) :: py_error + int)) [map of_bool p] (map (map of_bool) c)
        = Inr (map (\<lambda>y. map2 min (map of_bool p) y) (map (map of_bool) c))"
      by (rule broadcast2_left1) (use that inner in auto)
    then show ?thesis by (simp add: comp_def)
  qed
  have outer: "broadcast2 (broadcast2 (broadcast2 (\<lambda>(x :: int) y. Inr (min x y) :: py_error + int)))
        (map (\<lambda>row. [map of_bool row]) pm) (map (map (map of_bool)) cm)
      = Inr (map2 (\<lambda>x y. (case x of [p] \<Rightarrow> map (\<lambda>cq. map2 min p cq) y | _ \<Rightarrow> []))
          (map (\<lambda>row. [map of_bool row]) pm) (map (map (map of_bool)) cm))"
  proof (rule broadcast2_same)
    show "length (map (\<lambda>row. [map of_bool row]) pm) = length (map (map (map of_bool)) cm)"
      using len by simp
  next
    fix x y :: "int list list"
    assume "(x, y) \<in> set (zip (map (\<lambda>row. [map of_bool row]) pm) (map (map (map of_bool)) cm))"
    then obtain b where b: "b < length pm" "x = [map of_bool (pm ! b)]"
        "y = map (map of_bool) (cm ! b)"
      using len by (auto simp: in_set_zip)
    have "\<And>cq. cq \<in> set (cm ! b) \<Longrightarrow> length (pm ! b) = length cq"
      using pw[OF b(1)] cw[of b] b(1) len by (auto simp: in_set_conv_nth)
    from mid[OF this] b show "broadcast2 (broadcast2 (\<lambda>(x :: int) y. Inr (min x y) :: py_error + int)) x y
        = Inr (case x of [p] \<Rightarrow> map (\<lambda>cq. map2 min p cq) y | _ \<Rightarrow> [])"
      by (simp add: comp_def)
  qed
  have "map2 (\<lambda>x y. (case x of [p] \<Rightarrow> map (\<lambda>cq. map2 min p cq) y | _ \<Rightarrow> []))
          (map (\<lambda>row. [map of_bool row]) pm) (map (map (map of_bool)) cm)
      = map2 (\<lambda>p c. map (\<lambda>cq. map2 min (map of_bool p) (map of_bool cq)) c) pm cm"
    by (simp add: zip_map_map comp_def case_prod_unfold)
  with outer show ?thesis by (simp add: minimum_def comp_def)
qed

lemma self_attention_mask_padding:
  assumes len: "length pm = length (query_positions B Q idx)"
    and pw: "\<forall>row \<in> set pm. length row = (case cache_len of None \<Rightarrow> Q | Some n \<Rightarrow> n)"
  shows "\<exists>m. compute_self_attention_mask B Q km (Some pm) None True cache_len idx
            = Inr (Some (IntMask m))
     \<and> (\<forall>b q j. b < length pm \<and> q < length (query_positions B Q idx ! b)
            \<and> j < (case cache_len of None \<Rightarrow> Q | Some n \<Rightarrow> n) \<longrightarrow>
          m ! b ! q ! j
            = min (of_bool (pm ! b ! j))
                (of_bool (compute_causal_mask B (case cache_len of None \<Rightarrow> Q | Some n \<Rightarrow> n) Q idx
                            ! b ! q ! j)))"
proof -
  let ?T = "case cache_len of None \<Rightarrow> Q | Some n \<Rightarrow> n"
  let ?cm = "compute_causal_mask B ?T Q idx"
  let ?m = "map2 (\<lambda>p c. map (\<lambda>cq. map2 min (map of_bool p) (map of_bool cq)) c) pm ?cm
             :: int list list list"
  have l: "length pm = length ?cm" using len by (simp add: causal_mask_shape)
  have "minimum (cast_int32 (BoolMask (map (\<lambda>row. [row]) pm))) (cast_int32 (BoolMask ?cm))
      = Inr ?m"
  proof (rule minimum_padding[OF l, where T = ?T])
    fix b assume "b < length pm"
    with pw show "length (pm ! b) = ?T" by simp
  next
    fix b q assume "b < length ?cm" "q < length (?cm ! b)"
    then show "length (?cm ! b ! q) = ?T" by (simp add: causal_mask_shape)
  qed
  then have run: "compute_self_attention_mask B Q km (Some pm) None True cache_len idx
      = Inr (Some (IntMask ?m))"
    by (simp add: compute_self_attention_mask_def merge_padding_and_attention_mask_def Let_def)
  have "?m ! b ! q ! j = min (of_bool (pm ! b ! j)) (of_bool (?cm ! b ! q ! j))"
    if "b < length pm" "q < length (query_positions B Q idx ! b)" "j < ?T" for b q j
  proof -
    have b: "b < length ?cm" using that(1) l by simp
    have q: "q < length (?cm ! b)" using that b len by (simp add: causal_mask_shape)
    have w: "length (?cm ! b ! q) = ?T" using that len by (simp add: causal_mask_shape)
    have p: "length (pm ! b) = ?T" using pw that(1) by simp
    show ?thesis using that(1) b q w p that(3) l by simp
  qed
  with run show ?thesis by blast
qed

text \<open>
  Claim C5 (causal masking), as amended. With causal masking enabled, the mask entry for
  batch row \<open>b\<close>, query slot \<open>q\<close> and key position \<open>j\<close> permits attention if and only if
  \<open>j\<close> is at most the absolute position of the query, for every query slot that has a
  position: without a cache index the position is \<open>q\<close>; with a dense cache index it is
  the index entry \<open>t[b][q]\<close> (for the stepping loop's index of shape \<open>[batch, 1]\<close> and its
  single query, the query's sequence position 0 offset by the cache update index of the
  row); with a ragged cache index it is the entry \<open>r[b][q]\<close> for \<open>q\<close> below the length
  of row \<open>b\<close>. A query slot past the end of a ragged index row (padding) gets position
  \<open>-1\<close> and may attend to no key position. Without a padding mask the final mask is the
  causal mask; with a padding mask it is the elementwise minimum, with broadcasting, of
  the padding mask and the causal mask, entry by entry when the padding mask has one
  column per key position.
\<close>

theorem causal_mask_permits_up_to_position:
  "(b < batch_size \<and> q < output_length \<and> j < input_length \<longrightarrow>
      (compute_causal_mask batch_size input_length output_length None ! b ! q ! j
         \<longleftrightarrow> j \<le> q))
   \<and> (b < length t \<and> q < length (t ! b) \<and> j < input_length \<longrightarrow>
      (compute_causal_mask batch_size input_length output_length (Some (Tensor t)) ! b ! q ! j
         \<longleftrightarrow> int j \<le> t ! b ! q))
   \<and> (b < length r \<and> q < length (r ! b) \<and> j < input_length \<longrightarrow>
      (compute_causal_mask batch_size input_length output_length (Some (RaggedTensor r))
         ! b ! q ! j \<longleftrightarrow> int j \<le> r ! b ! q))
   \<and> (b < length r \<and> length (r ! b) \<le> q \<and> q < length (to_tensor (- 1) r ! b)
        \<and> j < input_length \<longrightarrow>
      \<not> compute_causal_mask batch_size input_length output_length (Some (RaggedTensor r))
          ! b ! q ! j)
   \<and> compute_self_attention_mask batch_size output_length None None None True cache_len idx
       = Inr (Some (BoolMask (compute_causal_mask batch_size
           (case cache_len of None \<Rightarrow> output_length | Some n \<Rightarrow> n) output_length idx)))
   \<and> compute_self_attention_mask batch_size output_length km (Some pm) None True cache_len idx
       = (case minimum (cast_int32 (BoolMask (map (\<lambda>row. [row]) pm)))
                 (cast_int32 (BoolMask (compute_causal_mask batch_size
                    (case cache_len of None \<Rightarrow> output_length | Some n \<Rightarrow> n)
                    output_length idx))) of
            Inl e \<Rightarrow> Inl e
          | Inr m \<Rightarrow> Inr (Some (IntMask m)))
   \<and> (length pm = length (query_positions batch_size output_length idx)
        \<and> (\<forall>row \<in> set pm. length row = (case cache_len of None \<Rightarrow> output_length | Some n \<Rightarrow> n))
      \<longrightarrow> (\<exists>m. compute_self_attention_mask batch_size output_length km (Some pm) None True
                   cache_len idx = Inr (Some (IntMask m))
            \<and> (\<forall>b q j. b < length pm
                  \<and> q < length (query_positions batch_size output_length idx ! b)
                  \<and> j < (case cache_len of None \<Rightarrow> output_length | Some n \<Rightarrow> n) \<longrightarrow>
                m ! b ! q ! j
                  = min (of_bool (pm ! b ! j))
                      (of_bool (compute_causal_mask batch_size
                         (case cache_len of None \<Rightarrow> output_length | Some n \<Rightarrow> n)
                         output_length idx ! b ! q ! j)))))"
proof (intro conjI impI)
  assume "b < batch_size \<and> q < output_length \<and> j < input_length"
  then show "compute_causal_mask batch_size input_length output_length None ! b ! q ! j
      \<longleftrightarrow> j \<le> q"
    using causal_mask_nth[of b batch_size output_length None q j input_length]
    by (simp add: query_positions_def)
next
  assume "b < length t \<and> q < length (t ! b) \<and> j < input_length"
  then show "compute_causal_mask batch_size input_length output_length (Some (Tensor t))
      ! b ! q ! j \<longleftrightarrow> int j \<le> t ! b ! q"
    using causal_mask_nth[of b batch_size output_length "Some (Tensor t)" q j input_length]
    by (simp add: query_positions_def)
next
  assume a: "b < length r \<and> q < length (r ! b) \<and> j < input_length"
  then have "query_positions batch_size output_length (Some (RaggedTensor r)) ! b ! q = r ! b ! q"
    by (simp add: query_positions_def to_tensor_nth nth_append)
  moreover have "b < length (query_positions batch_size output_length (Some (RaggedTensor r)))"
    using a by (simp add: query_positions_def to_tensor_def Let_def)
  moreover have "q < length (query_positions batch_size output_length (Some (RaggedTensor r)) ! b)"
    using a by (simp add: query_positions_def to_tensor_nth)
  ultimately show "compute_causal_mask batch_size input_length output_length
      (Some (RaggedTensor r)) ! b ! q ! j \<longleftrightarrow> int j \<le> r ! b ! q"
    using a causal_mask_nth[of b batch_size output_length "Some (RaggedTensor r)" q j input_length]
    by simp
next
  assume a: "b < length r \<and> length (r ! b) \<le> q \<and> q < length (to_tensor (- 1) r ! b)
      \<and> j < input_length"
  then have b: "b < length r" and ge: "length (r ! b) \<le> q"
    and lt: "q < length (to_tensor (- 1 :: int) r ! b)" by simp_all
  have "length (to_tensor (- 1 :: int) r ! b)
      = length (r ! b) + (foldr max (map length r) 0 - length (r ! b))"
    using b by (simp add: to_tensor_nth)
  with ge lt have "q - length (r ! b) < foldr max (map length r) 0 - length (r ! b)"
    by linarith
  with a have "query_positions batch_size output_length (Some (RaggedTensor r)) ! b ! q = - 1"
    by (simp add: query_positions_def to_tensor_nth nth_append)
  moreover have "b < length (query_positions batch_size output_length (Some (RaggedTensor r)))"
    using a by (simp add: query_positions_def to_tensor_def Let_def)
  moreover have "q < length (query_positions batch_size output_length (Some (RaggedTensor r)) ! b)"
    using a by (simp add: query_positions_def)
  ultimately show "\<not> compute_causal_mask batch_size input_length output_length
      (Some (RaggedTensor r)) ! b ! q ! j"
    using a causal_mask_nth[of b batch_size output_length "Some (RaggedTensor r)" q j input_length]
    by simp
next
  show "compute_self_attention_mask batch_size output_length None None None True cache_len idx
       = Inr (Some (BoolMask (compute_causal_mask batch_size
           (case cache_len of None \<Rightarrow> output_length | Some n \<Rightarrow> n) output_length idx)))"
    by (simp add: compute_self_attention_mask_def merge_padding_and_attention_mask_def Let_def)
next
  show "compute_self_attention_mask batch_size output_length km (Some pm) None True cache_len idx
       = (case minimum (cast_int32 (BoolMask (map (\<lambda>row. [row]) pm)))
                 (cast_int32 (BoolMask (compute_causal_mask batch_size
                    (case cache_len of None \<Rightarrow> output_length | Some n \<Rightarrow> n)
                    output_length idx))) of
            Inl e \<Rightarrow> Inl e
          | Inr m \<Rightarrow> Inr (Some (IntMask m)))"
    by (simp add: compute_self_attention_mask_def merge_padding_and_attention_mask_def Let_def)
next
  assume "length pm = length (query_positions batch_size output_length idx)
      \<and> (\<forall>row \<in> set pm. length row = (case cache_len of None \<Rightarrow> output_length | Some n \<Rightarrow> n))"
  then show "\<exists>m. compute_self_attention_mask batch_size output_length km (Some pm) None True
                   cache_len idx = Inr (Some (IntMask m))
            \<and> (\<forall>b q j. b < length pm
                  \<and> q < length (query_positions batch_size output_length idx ! b)
                  \<and> j < (case cache_len of None \<Rightarrow> output_length | Some n \<Rightarrow> n) \<longrightarrow>
                m ! b ! q ! j
                  = min (of_bool (pm ! b ! j))
                      (of_bool (compute_causal_mask batch_size
                         (case cache_len of None \<Rightarrow> output_length | Some n \<Rightarrow> n)
                         output_length idx ! b ! q ! j)))"
    using self_attention_mask_padding[of pm batch_size output_length idx cache_len km] by blast
qed

theorem causal_mask_permits_up_to_position_witness:
  "compute_causal_mask 2 3 2 (Some (RaggedTensor [[0], [0, 1]])) ! 1 ! 1 ! 1
   \<and> \<not> compute_causal_mask 2 3 2 (Some (RaggedTensor [[0], [0, 1]])) ! 1 ! 1 ! 2
   \<and> \<not> compute_causal_mask 2 3 2 (Some (RaggedTensor [[0], [0, 1]])) ! 0 ! 1 ! 0
   \<and> compute_causal_mask 1 4 1 (Some (Tensor [[2]])) ! 0 ! 0 ! 2
   \<and> \<not> compute_causal_mask 1 4 1 (Some (Tensor [[2]])) ! 0 ! 0 ! 3
   \<and> compute_causal_mask 1 3 3 None ! 0 ! 1 ! 1
   \<and> \<not> compute_causal_mask 1 3 3 None ! 0 ! 1 ! 2
   \<and> (\<exists>m. compute_self_attention_mask 1 3 None (Some [[True, False, True]]) None True None None
            = Inr (Some (IntMask m))
        \<and> m ! 0 ! 2 ! 1 = 0 \<and> m ! 0 ! 2 ! 2 = 1)"
proof -
  note T = causal_mask_permits_up_to_position
  have r1: "compute_causal_mask 2 3 2 (Some (RaggedTensor [[0], [0, 1]])) ! 1 ! 1 ! 1"
    using T[where b = 1 and q = 1 and j = 1 and r = "[[0], [0, 1]]" and input_length = 3
        and batch_size = 2 and output_length = 2] by simp
  have r2: "\<not> compute_causal_mask 2 3 2 (Some (RaggedTensor [[0], [0, 1]])) ! 1 ! 1 ! 2"
    using T[where b = 1 and q = 1 and j = 2 and r = "[[0], [0, 1]]" and input_length = 3
        and batch_size = 2 and output_length = 2] by simp
  have r3: "\<not> compute_causal_mask 2 3 2 (Some (RaggedTensor [[0], [0, 1]])) ! 0 ! 1 ! 0"
    using T[where b = 0 and q = 1 and j = 0 and r = "[[0], [0, 1]]" and input_length = 3
        and batch_size = 2 and output_length = 2] by (simp add: to_tensor_def)
  have t1: "compute_causal_mask 1 4 1 (Some (Tensor [[2]])) ! 0 ! 0 ! 2"
    using T[where b = 0 and q = 0 and j = 2 and t = "[[2]]" and input_length = 4
        and batch_size = 1 and output_length = 1] by simp
  have t2: "\<not> compute_causal_mask 1 4 1 (Some (Tensor [[2]])) ! 0 ! 0 ! 3"
    using T[where b = 0 and q = 0 and j = 3 and t = "[[2]]" and input_length = 4
        and batch_size = 1 and output_length = 1] by simp
  have n1: "compute_causal_mask 1 3 3 None ! 0 ! 1 ! 1"
    using T[where b = 0 and q = 1 and j = 1 and input_length = 3
        and batch_size = 1 and output_length = 3] by simp
  have n2: "\<not> compute_causal_mask 1 3 3 None ! 0 ! 1 ! 2"
    using T[where b = 0 and q = 1 and j = 2 and input_length = 3
        and batch_size = 1 and output_length = 3] by simp
  have shape: "length [[True, False, True]] = length (query_positions 1 3 None)
      \<and> (\<forall>row \<in> set [[True, False, True]]. length row = (case None of None \<Rightarrow> 3 | Some n \<Rightarrow> n))"
    by (simp add: query_positions_def)
  have c: "compute_causal_mask 1 3 3 None ! 0 ! 2 ! 1" "compute_causal_mask 1 3 3 None ! 0 ! 2 ! 2"
    using T[where b = 0 and q = 2 and j = 1 and input_length = 3
        and batch_size = 1 and output_length = 3]
      T[where b = 0 and q = 2 and j = 2 and input_length = 3
        and batch_size = 1 and output_length = 3] by simp_all
  note L = T[where batch_size = 1 and output_length = 3 and idx = None and cache_len = None
        and pm = "[[True, False, True]]" and km = None,
        THEN conjunct2, THEN conjunct2, THEN conjunct2, THEN conjunct2, THEN conjunct2,
        THEN conjunct2, THEN mp, OF shape]
  have p: "\<exists>m. compute_self_attention_mask 1 3 None (Some [[True, False, True]]) None True None None
            = Inr (Some (IntMask m))
        \<and> m ! 0 ! 2 ! 1 = 0 \<and> m ! 0 ! 2 ! 2 = 1"
    using L
  proof (elim exE conjE)
    fix m
    assume m: "compute_self_attention_mask 1 3 None (Some [[True, False, True]]) None True
        None None = Inr (Some (IntMask m))"
      and e: "\<forall>b q j. b < length [[True, False, True]]
                  \<and> q < length (query_positions 1 3 None ! b)
                  \<and> j < (case None of None \<Rightarrow> 3 | Some n \<Rightarrow> n) \<longrightarrow>
                m ! b ! q ! j
                  = min (of_bool ([[True, False, True]] ! b ! j))
                      (of_bool (compute_causal_mask 1
                         (case None of None \<Rightarrow> 3 | Some n \<Rightarrow> n) 3 None ! b ! q ! j))"
    from e[rule_format, of 0 2 1] c have m1: "m ! 0 ! 2 ! 1 = 0"
      by (simp add: query_positions_def)
    from e[rule_format, of 0 2 2] c have m2: "m ! 0 ! 2 ! 2 = 1"
      by (simp add: query_positions_def)
    from m m1 m2 show ?thesis by (intro exI conjI)
  qed
  from r1 r2 r3 t1 t2 n1 n2 p show ?thesis by (intro conjI)
qed

text \<open>
  The claim as stated fails at a padded query slot. Priming a batch with prompts of
  lengths 1 and 2 passes the ragged index \<open>[[0], [0, 1]]\<close>; the padded decoder input has
  two columns, and the query of row 0 at sequence position 1 (cache offset 0) is not
  permitted to attend to key position 0, although \<open>0 \<le> 1\<close>: \<^verbatim>\<open>to_tensor(default_value=-1)\<close>
  gives the slot the position \<open>-1\<close>.
\<close>

theorem causal_mask_padded_query_counterexample:
  "\<not> compute_causal_mask 2 3 2 (Some (RaggedTensor [[0], [0, 1]])) ! 0 ! 1 ! 0
   \<and> (0 :: nat) \<le> 1
   \<and> compute_causal_mask 2 3 2 (Some (RaggedTensor [[0], [0, 1]]))
       = [[[True, False, False], [False, False, False]],
          [[True, False, False], [True, True, False]]]"
  by code_simp

section \<open>Properties of the tokenizer\<close>

subsection \<open>Splitting, lookup and cleanup\<close>

lemma take_drop_match: "0 < n \<Longrightarrow> take n (c # cs) @ drop (n - 1) cs = c # cs"
  by (cases n) simp_all

lemma regex_split_concat: "concat (regex_split pending s) = pending @ s"
proof (induction pending s rule: regex_split.induct)
  case (1 pending)
  then show ?case by simp
next
  case (2 pending c cs)
  show ?case
  proof (cases "smiles_match (c # cs) = 0")
    case True
    have "regex_split pending (c # cs) = regex_split (pending @ [c]) cs"
      by (subst regex_split.simps(2)) (simp only: True simp_thms if_True)
    with 2(1)[OF True] show ?thesis by (simp del: smiles_match.simps regex_split.simps)
  next
    case False
    then have n: "0 < smiles_match (c # cs)" by (simp del: smiles_match.simps)
    have "regex_split pending (c # cs)
        = (if pending = [] then [] else [pending])
           @ [take (smiles_match (c # cs)) (c # cs)]
           @ regex_split [] (drop (smiles_match (c # cs) - 1) cs)"
      by (subst regex_split.simps(2)) (simp only: False simp_thms if_False)
    with 2(2)[OF False] take_drop_match[OF n, of c cs] show ?thesis
      by (simp del: smiles_match.simps regex_split.simps)
  qed
qed


lemma index_of_nth: "index_of x xs = Some i \<Longrightarrow> i < length xs \<and> xs ! i = x"
proof (induction xs arbitrary: i)
  case Nil
  then show ?case by simp
next
  case (Cons y ys)
  show ?case
  proof (cases "x = y")
    case True
    with Cons.prems show ?thesis by simp
  next
    case False
    with Cons.prems obtain j where j: "index_of x ys = Some j" "i = Suc j" by auto
    from Cons.IH[OF j(1)] j(2) show ?thesis by simp
  qed
qed

lemma index_of_mem: "x \<in> set xs \<Longrightarrow> \<exists>i. index_of x xs = Some i"
  by (induction xs) auto

lemma no_marker_across:
  assumes "\<not> prefix m (c # cs)" and "CHR ''['' \<notin> set (tl m)" and "X \<noteq> []" "hd X = CHR ''[''"
  shows "\<not> prefix m (c # cs @ X)"
proof
  assume "prefix m (c # cs @ X)"
  then have "prefix m ((c # cs) @ X)" by simp
  then consider "prefix m (c # cs)" | us where "m = (c # cs) @ us" "prefix us X"
    unfolding prefix_append by blast
  then show False
  proof cases
    case 1
    with assms(1) show False by simp
  next
    case 2
    show False
    proof (cases us)
      case Nil
      with 2(1) assms(1) show False by simp
    next
      case (Cons u us')
      with 2(2) assms(3,4) have "u = CHR ''[''" by (cases X) simp_all
      with Cons 2(1) have "CHR ''['' \<in> set (tl m)" by simp
      with assms(2) show False by simp
    qed
  qed
qed

lemma cleanup_marker_free:
  assumes "\<not> sublist PAD_TOKEN s" "\<not> sublist BOS_TOKEN s" "\<not> sublist EOS_TOKEN s"
    and "X \<noteq> []" "hd X = CHR ''[''"
  shows "regex_replace_cleanup (s @ X) = s @ regex_replace_cleanup X"
  using assms(1-3)
proof (induction s)
  case Nil
  then show ?case by simp
next
  case (Cons c cs)
  from Cons.prems have np: "\<not> prefix PAD_TOKEN (c # cs)" "\<not> prefix BOS_TOKEN (c # cs)"
      "\<not> prefix EOS_TOKEN (c # cs)"
    and ns: "\<not> sublist PAD_TOKEN cs" "\<not> sublist BOS_TOKEN cs" "\<not> sublist EOS_TOKEN cs"
    by (simp_all add: sublist_Cons_right)
  have a: "\<not> prefix PAD_TOKEN (c # cs @ X)"
    by (rule no_marker_across[OF np(1) _ assms(4,5)]) (simp add: PAD_TOKEN_def)
  have b: "\<not> prefix BOS_TOKEN (c # cs @ X)"
    by (rule no_marker_across[OF np(2) _ assms(4,5)]) (simp add: BOS_TOKEN_def)
  have c: "\<not> prefix EOS_TOKEN (c # cs @ X)"
    by (rule no_marker_across[OF np(3) _ assms(4,5)]) (simp add: EOS_TOKEN_def)
  have "regex_replace_cleanup (c # (cs @ X)) = c # regex_replace_cleanup (cs @ X)"
    by (subst regex_replace_cleanup.simps(2)) (simp only: a b c if_False)
  with Cons.IH[OF ns] show ?case by (simp del: regex_replace_cleanup.simps)
qed

lemma cleanup_pad: "regex_replace_cleanup (PAD_TOKEN @ Y) = regex_replace_cleanup Y"
  by (simp add: PAD_TOKEN_def)

lemma cleanup_bos: "regex_replace_cleanup (BOS_TOKEN @ Y) = regex_replace_cleanup Y"
  by (simp add: PAD_TOKEN_def BOS_TOKEN_def)

lemma cleanup_eos:
  "regex_replace_cleanup (EOS_TOKEN @ Y)
   = regex_replace_cleanup (dropWhile (\<lambda>x. x \<noteq> CHR 0x0A) Y)"
  by (simp add: PAD_TOKEN_def BOS_TOKEN_def EOS_TOKEN_def)

lemma cleanup_pads:
  "regex_replace_cleanup (concat (replicate k PAD_TOKEN) @ X) = regex_replace_cleanup X"
proof (induction k)
  case 0
  then show ?case by (simp del: regex_replace_cleanup.simps)
next
  case (Suc k)
  have "regex_replace_cleanup (concat (replicate (Suc k) PAD_TOKEN) @ X)
      = regex_replace_cleanup (PAD_TOKEN @ (concat (replicate k PAD_TOKEN) @ X))"
    by (simp del: regex_replace_cleanup.simps)
  with Suc show ?case by (simp only: cleanup_pad)
qed

lemma pads_no_newline: "dropWhile (\<lambda>x. x \<noteq> CHR 0x0A) (concat (replicate k PAD_TOKEN)) = []"
proof -
  have "\<forall>x \<in> set (concat (replicate k PAD_TOKEN)). x \<noteq> CHR 0x0A"
    by (auto simp: PAD_TOKEN_def)
  then show ?thesis by (simp only: dropWhile_eq_Nil_conv)
qed

lemma cleanup_eos_pads:
  "regex_replace_cleanup (EOS_TOKEN @ concat (replicate k PAD_TOKEN)) = []"
  by (simp only: cleanup_eos pads_no_newline regex_replace_cleanup.simps(1))

lemma truthy_markers: "EOS_TOKEN \<noteq> []" "BOS_TOKEN \<noteq> []"
  by (simp_all add: EOS_TOKEN_def BOS_TOKEN_def)

lemma Tokenizer_init_eos: "Tokenizer_init a = (Inr tk, ev) \<Longrightarrow> arg_add_eos a"
  by (cases "arg_add_eos a") (simp_all add: Tokenizer_init_def Let_def split: if_splits)

lemma Tokenizer_init_seq:
  "Tokenizer_init a = (Inr tk, ev) \<Longrightarrow>
   \<not> (truthy (arg_sequence_length a) \<and> \<not> isinstance_int (arg_sequence_length a))"
  by (cases "truthy (arg_sequence_length a) \<and> \<not> isinstance_int (arg_sequence_length a)")
     (simp_all add: Tokenizer_init_def)

lemma create_vocab_head:
  "create_vocab (PAD_TOKEN # sp) v \<noteq> [] \<and> create_vocab (PAD_TOKEN # sp) v ! 0 = PAD_TOKEN"
  by (simp add: create_vocab_def)

lemma Tokenizer_init_built:
  assumes init: "Tokenizer_init a = (Inr tk, ev)" and v: "arg_vocabulary a = Some v" "v \<noteq> []"
  shows "eos_token tk = Some EOS_TOKEN
     \<and> (bos_token tk = None \<or> bos_token tk = Some BOS_TOKEN)
     \<and> pad_token_id tk = 0
     \<and> sequence_length tk = arg_sequence_length a
     \<and> (\<exists>voc d. lookup_table tk = Some (voc, OOV_TOKEN_ID)
            \<and> lookup_table_reverse tk = Some (voc, d)
            \<and> vocabulary tk = Some voc \<and> voc \<noteq> [] \<and> voc ! 0 = PAD_TOKEN)"
proof -
  note e = Tokenizer_init_eos[OF init]
  note s = Tokenizer_init_seq[OF init]
  show ?thesis
  proof (cases "arg_oov_token a")
    case None
    with init e s v show ?thesis
      by (cases "arg_add_bos a")
         (simp_all add: Tokenizer_init_def Let_def create_lookup_tables_def truthy_markers)
  next
    case (Some ov)
    show ?thesis
    proof (cases "arg_add_bos a")
      case True
      show ?thesis
      proof (cases "ov = []")
        case True
        show ?thesis
        proof (cases "distinct (create_vocab [PAD_TOKEN, BOS_TOKEN, EOS_TOKEN] v)")
          case True
          with init e s v Some \<open>arg_add_bos a\<close> \<open>ov = []\<close>
          have "tk = \<lparr> sequence_length = arg_sequence_length a,
                    padding_mode = (if arg_padding_mode a = ''left'' then ''left'' else ''right''),
                    pad_token = PAD_TOKEN, bos_token = Some BOS_TOKEN, eos_token = Some EOS_TOKEN,
                    oov_token = Some ov, sep_token = arg_sep_token a,
                    pad_token_id = PAD_TOKEN_ID, oov_token_id = OOV_TOKEN_ID,
                    bos_token_id = Some 2, eos_token_id = Some 3,
                    special_tokens = [PAD_TOKEN, BOS_TOKEN, EOS_TOKEN],
                    vocabulary = Some (create_vocab [PAD_TOKEN, BOS_TOKEN, EOS_TOKEN] v),
                    lookup_table = Some (create_vocab [PAD_TOKEN, BOS_TOKEN, EOS_TOKEN] v, OOV_TOKEN_ID),
                    lookup_table_reverse = Some (create_vocab [PAD_TOKEN, BOS_TOKEN, EOS_TOKEN] v, ov) \<rparr>"
            by (simp add: Tokenizer_init_def Let_def create_lookup_tables_def truthy_markers)
          then show ?thesis using create_vocab_head by (simp add: PAD_TOKEN_ID_def)
        next
          case False
          with init e s v Some \<open>arg_add_bos a\<close> \<open>ov = []\<close> show ?thesis
            by (simp add: Tokenizer_init_def Let_def create_lookup_tables_def truthy_markers)
        qed
      next
        case False
        show ?thesis
        proof (cases "distinct (create_vocab [PAD_TOKEN, ov, BOS_TOKEN, EOS_TOKEN] v)")
          case True
          with init e s v Some \<open>arg_add_bos a\<close> \<open>ov \<noteq> []\<close>
          have "tk = \<lparr> sequence_length = arg_sequence_length a,
                    padding_mode = (if arg_padding_mode a = ''left'' then ''left'' else ''right''),
                    pad_token = PAD_TOKEN, bos_token = Some BOS_TOKEN, eos_token = Some EOS_TOKEN,
                    oov_token = Some ov, sep_token = arg_sep_token a,
                    pad_token_id = PAD_TOKEN_ID, oov_token_id = OOV_TOKEN_ID,
                    bos_token_id = Some 2, eos_token_id = Some 3,
                    special_tokens = [PAD_TOKEN, ov, BOS_TOKEN, EOS_TOKEN],
                    vocabulary = Some (create_vocab [PAD_TOKEN, ov, BOS_TOKEN, EOS_TOKEN] v),
                    lookup_table = Some (create_vocab [PAD_TOKEN, ov, BOS_TOKEN, EOS_TOKEN] v, OOV_TOKEN_ID),
                    lookup_table_reverse = Some (create_vocab [PAD_TOKEN, ov, BOS_TOKEN, EOS_TOKEN] v, ov) \<rparr>"
            by (simp add: Tokenizer_init_def Let_def create_lookup_tables_def truthy_markers)
          then show ?thesis using create_vocab_head by (simp add: PAD_TOKEN_ID_def)
        next
          case False
          with init e s v Some \<open>arg_add_bos a\<close> \<open>ov \<noteq> []\<close> show ?thesis
            by (simp add: Tokenizer_init_def Let_def create_lookup_tables_def truthy_markers)
        qed
      qed
    next
      case False
      show ?thesis
      proof (cases "ov = []")
        case True
        show ?thesis
        proof (cases "distinct (create_vocab [PAD_TOKEN, EOS_TOKEN] v)")
          case True
          with init e s v Some \<open>\<not> arg_add_bos a\<close> \<open>ov = []\<close>
          have "tk = \<lparr> sequence_length = arg_sequence_length a,
                    padding_mode = (if arg_padding_mode a = ''left'' then ''left'' else ''right''),
                    pad_token = PAD_TOKEN, bos_token = None, eos_token = Some EOS_TOKEN,
                    oov_token = Some ov, sep_token = arg_sep_token a,
                    pad_token_id = PAD_TOKEN_ID, oov_token_id = OOV_TOKEN_ID,
                    bos_token_id = None, eos_token_id = Some 2,
                    special_tokens = [PAD_TOKEN, EOS_TOKEN],
                    vocabulary = Some (create_vocab [PAD_TOKEN, EOS_TOKEN] v),
                    lookup_table = Some (create_vocab [PAD_TOKEN, EOS_TOKEN] v, OOV_TOKEN_ID),
                    lookup_table_reverse = Some (create_vocab [PAD_TOKEN, EOS_TOKEN] v, ov) \<rparr>"
            by (simp add: Tokenizer_init_def Let_def create_lookup_tables_def truthy_markers)
          then show ?thesis using create_vocab_head by (simp add: PAD_TOKEN_ID_def)
        next
          case False
          with init e s v Some \<open>\<not> arg_add_bos a\<close> \<open>ov = []\<close> show ?thesis
            by (simp add: Tokenizer_init_def Let_def create_lookup_tables_def truthy_markers)
        qed
      next
        case False
        show ?thesis
        proof (cases "distinct (create_vocab [PAD_TOKEN, ov, EOS_TOKEN] v)")
          case True
          with init e s v Some \<open>\<not> arg_add_bos a\<close> \<open>ov \<noteq> []\<close>
          have "tk = \<lparr> sequence_length = arg_sequence_length a,
                    padding_mode = (if arg_padding_mode a = ''left'' then ''left'' else ''right''),
                    pad_token = PAD_TOKEN, bos_token = None, eos_token = Some EOS_TOKEN,
                    oov_token = Some ov, sep_token = arg_sep_token a,
                    pad_token_id = PAD_TOKEN_ID, oov_token_id = OOV_TOKEN_ID,
                    bos_token_id = None, eos_token_id = Some 2,
                    special_tokens = [PAD_TOKEN, ov, EOS_TOKEN],
                    vocabulary = Some (create_vocab [PAD_TOKEN, ov, EOS_TOKEN] v),
                    lookup_table = Some (create_vocab [PAD_TOKEN, ov, EOS_TOKEN] v, OOV_TOKEN_ID),
                    lookup_table_reverse = Some (create_vocab [PAD_TOKEN, ov, EOS_TOKEN] v, ov) \<rparr>"
            by (simp add: Tokenizer_init_def Let_def create_lookup_tables_def truthy_markers)
          then show ?thesis using create_vocab_head by (simp add: PAD_TOKEN_ID_def)
        next
          case False
          with init e s v Some \<open>\<not> arg_add_bos a\<close> \<open>ov \<noteq> []\<close> show ?thesis
            by (simp add: Tokenizer_init_def Let_def create_lookup_tables_def truthy_markers)
        qed
      qed
    qed
  qed
qed

lemma cleanup_joined:
  assumes "\<not> sublist PAD_TOKEN s" "\<not> sublist BOS_TOKEN s" "\<not> sublist EOS_TOKEN s"
    and "b = [] \<or> b = BOS_TOKEN"
  shows "regex_replace_cleanup (concat (replicate k1 PAD_TOKEN) @ (b @ s @ EOS_TOKEN)
           @ concat (replicate k2 PAD_TOKEN)) = s"
proof -
  define X where "X = EOS_TOKEN @ concat (replicate k2 PAD_TOKEN)"
  have X: "X \<noteq> []" "hd X = CHR ''[''" by (simp_all add: X_def EOS_TOKEN_def)
  have "concat (replicate k1 PAD_TOKEN) @ (b @ s @ EOS_TOKEN) @ concat (replicate k2 PAD_TOKEN)
      = concat (replicate k1 PAD_TOKEN) @ (b @ (s @ X))"
    by (simp add: X_def)
  then have "regex_replace_cleanup (concat (replicate k1 PAD_TOKEN) @ (b @ s @ EOS_TOKEN)
           @ concat (replicate k2 PAD_TOKEN))
      = regex_replace_cleanup (b @ (s @ X))"
    by (simp only: cleanup_pads)
  also have "\<dots> = regex_replace_cleanup (s @ X)"
  proof (cases "b = []")
    case True
    then show ?thesis by (simp only: append_Nil)
  next
    case False
    with assms(4) have "b = BOS_TOKEN" by blast
    then show ?thesis by (simp only: cleanup_bos)
  qed
  also have "\<dots> = s @ regex_replace_cleanup X"
    by (rule cleanup_marker_free[OF assms(1-3) X])
  also have "\<dots> = s" unfolding X_def by (simp only: cleanup_eos_pads append_Nil2)
  finally show ?thesis .
qed

lemma lookup_one:
  assumes "t \<in> set voc"
  shows "(\<lambda>i. if 0 \<le> i \<and> nat i < length voc then voc ! nat i else d)
           (case index_of t voc of Some i \<Rightarrow> int i | None \<Rightarrow> dflt) = t"
proof -
  from index_of_mem[OF assms] obtain i where i: "index_of t voc = Some i" ..
  from index_of_nth[OF i] have "i < length voc" "voc ! i = t" by simp_all
  with i show ?thesis by simp
qed

lemma lookup_round_trip:
  "set toks \<subseteq> set voc \<Longrightarrow>
   map (\<lambda>i. if 0 \<le> i \<and> nat i < length voc then voc ! nat i else d)
     (map (\<lambda>t. case index_of t voc of Some i \<Rightarrow> int i | None \<Rightarrow> dflt) toks) = toks"
proof (induction toks)
  case Nil
  then show ?case by simp
next
  case (Cons t ts)
  then have t: "t \<in> set voc" and ts: "set ts \<subseteq> set voc" by simp_all
  from lookup_one[OF t, where d = d and dflt = dflt] Cons.IH[OF ts] show ?case by simp
qed

lemma to_tensor_shape_fits:
  "length row \<le> n \<Longrightarrow> to_tensor_shape n d [row] = [row @ replicate (n - length row) d]"
  by (simp add: to_tensor_shape_def)

lemma to_tensor_shape_fits_left:
  "length row \<le> n \<Longrightarrow>
   map rev (to_tensor_shape n d (map rev [row])) = [replicate (n - length row) d @ row]"
  by (simp add: to_tensor_shape_def)

lemma scenario_tokenizer_with_length:
  "Tokenizer_init (scenario_args\<lparr>arg_sequence_length := PyInt n\<rparr>)
   = (Inr (scenario_tokenizer\<lparr>sequence_length := PyInt n\<rparr>), [CreateVocab, CreateLookupTables])"
  by (simp add: Tokenizer_init_def scenario_args_def default_args_def scenario_tokenizer_def
      scenario_vocabulary_def create_vocab_def create_lookup_tables_def
      PAD_TOKEN_def OOV_TOKEN_def BOS_TOKEN_def EOS_TOKEN_def PAD_TOKEN_ID_def OOV_TOKEN_ID_def)

lemma ABBA_tokens:
  "regex_split [] (or_empty (bos_token (scenario_tokenizer\<lparr>sequence_length := PyInt 8\<rparr>))
      @ ''ABBA'' @ or_empty (eos_token (scenario_tokenizer\<lparr>sequence_length := PyInt 8\<rparr>)))
   = [''[bos]'', ''A'', ''B'', ''B'', ''A'', ''[eos]'']"
  by code_simp

lemma ABBA_free:
  "\<not> sublist PAD_TOKEN ''ABBA''" "\<not> sublist BOS_TOKEN ''ABBA''" "\<not> sublist EOS_TOKEN ''ABBA''"
  by code_simp+

text \<open>
  Claim C9 (round trip), as amended. Let a tokenizer be constructed with a vocabulary,
  and let \<open>s\<close> be a string such that every token of the split of the marked string
  (begin token, \<open>s\<close>, end token) is in the vocabulary, \<open>s\<close> does not contain the text of
  the padding, begin or end token, and tokenization does not cut the sequence (ragged
  output, no sequence length, or a sequence length of at least the number of tokens).
  Then tokenizing \<open>s\<close> succeeds and detokenizing the result gives \<open>s\<close> back: the split
  loses no character, the two lookups are inverse on the vocabulary, and the cleanup
  removes exactly the padding and the two markers.
\<close>

theorem tokenize_detokenize_round_trip:
  assumes init: "Tokenizer_init a = (Inr tk, ev)"
    and v: "arg_vocabulary a = Some v" "v \<noteq> []"
    and invoc: "set (regex_split [] (or_empty (bos_token tk) @ s @ or_empty (eos_token tk)))
                  \<subseteq> set (the (vocabulary tk))"
    and free: "\<not> sublist PAD_TOKEN s" "\<not> sublist BOS_TOKEN s" "\<not> sublist EOS_TOKEN s"
    and nocut: "ragged \<or> \<not> truthy (sequence_length tk)
        \<or> (\<exists>n. dimension (sequence_length tk) = Some n
              \<and> length (regex_split [] (or_empty (bos_token tk) @ s @ or_empty (eos_token tk)))
                  \<le> n)"
  shows "\<exists>ids. tokenize tk (Strings [s]) ragged = Inr ids \<and> detokenize tk ids = Inr [s]"
proof -
  from Tokenizer_init_built[OF init v] obtain voc d where
    eos: "eos_token tk = Some EOS_TOKEN"
    and bos: "bos_token tk = None \<or> bos_token tk = Some BOS_TOKEN"
    and pad: "pad_token_id tk = 0"
    and fwd: "lookup_table tk = Some (voc, OOV_TOKEN_ID)"
    and bwd: "lookup_table_reverse tk = Some (voc, d)"
    and voc: "vocabulary tk = Some voc" "voc \<noteq> []" "voc ! 0 = PAD_TOKEN"
    by blast
  define b where "b = or_empty (bos_token tk)"
  define toks where "toks = regex_split [] (b @ s @ EOS_TOKEN)"
  define f where "f = (\<lambda>t. case index_of t voc of Some i \<Rightarrow> int i | None \<Rightarrow> OOV_TOKEN_ID)"
  define g where "g = (\<lambda>i. if 0 \<le> i \<and> nat i < length voc then voc ! nat i else d)"
  define ids where "ids = map f toks"
  have b: "b = [] \<or> b = BOS_TOKEN" using bos by (auto simp: b_def)
  have sub: "set toks \<subseteq> set voc" using invoc by (simp add: toks_def b_def eos voc(1))
  have gf: "map g ids = toks"
    unfolding ids_def g_def f_def by (rule lookup_round_trip[OF sub])
  have g0: "g 0 = PAD_TOKEN" using voc by (simp add: g_def)
  have joined: "concat toks = b @ s @ EOS_TOKEN"
    by (simp add: toks_def regex_split_concat)
  have t2i: "token_to_id tk [toks] = Inr [ids]"
    by (simp add: token_to_id_def fwd ids_def f_def)
  have pre: "pretokenize [or_empty (bos_token tk) @ s @ or_empty (eos_token tk)] = [toks]"
    by (simp add: pretokenize_def toks_def b_def eos)
  have tok: "\<exists>k1 k2. tokenize tk (Strings [s]) ragged
      = Inr [replicate k1 0 @ ids @ replicate k2 0]"
  proof (cases "ragged \<or> \<not> truthy (sequence_length tk)")
    case True
    then have "tokenize tk (Strings [s]) ragged = Inr [replicate 0 0 @ ids @ replicate 0 0]"
      by (auto simp: tokenize_def tokenize_in_mode_def strings_join_def Let_def pre t2i)
    then show ?thesis by blast
  next
    case False
    with nocut obtain n where n: "dimension (sequence_length tk) = Some n" "length toks \<le> n"
      by (auto simp: toks_def b_def eos)
    then have l: "length ids \<le> n" by (simp add: ids_def)
    show ?thesis
    proof (cases "padding_mode tk = ''left''")
      case True
      with False n have "tokenize tk (Strings [s]) ragged
          = Inr [replicate (n - length ids) 0 @ ids @ replicate 0 0]"
        using to_tensor_shape_fits_left[OF l, of 0]
        by (simp add: tokenize_def tokenize_in_mode_def strings_join_def Let_def pre t2i pad)
      then show ?thesis by blast
    next
      case pm: False
      with False n have "tokenize tk (Strings [s]) ragged
          = Inr [replicate 0 0 @ ids @ replicate (n - length ids) 0]"
        using to_tensor_shape_fits[OF l, of 0]
        by (simp add: tokenize_def tokenize_in_mode_def strings_join_def Let_def pre t2i pad)
      then show ?thesis by blast
    qed
  qed
  have detok: "detokenize tk [replicate k1 0 @ ids @ replicate k2 0] = Inr [s]" for k1 k2
  proof -
    have m: "map g (replicate k1 0 @ ids @ replicate k2 0)
        = replicate k1 PAD_TOKEN @ toks @ replicate k2 PAD_TOKEN"
      by (simp add: gf g0)
    have "concat (map g (replicate k1 0 @ ids @ replicate k2 0))
        = concat (replicate k1 PAD_TOKEN) @ (b @ s @ EOS_TOKEN) @ concat (replicate k2 PAD_TOKEN)"
      unfolding m by (simp add: joined)
    then have "regex_replace_cleanup (concat (map g (replicate k1 0 @ ids @ replicate k2 0))) = s"
      by (simp only: cleanup_joined[OF free b])
    then show ?thesis
      by (simp add: detokenize_def id_to_token_def bwd g_def del: regex_replace_cleanup.simps)
  qed
  from tok detok show ?thesis by blast
qed

theorem tokenize_detokenize_round_trip_witness:
  "\<exists>ids. tokenize (scenario_tokenizer\<lparr>sequence_length := PyInt 8\<rparr>) (Strings [''ABBA'']) False
            = Inr ids
       \<and> detokenize (scenario_tokenizer\<lparr>sequence_length := PyInt 8\<rparr>) ids = Inr [''ABBA'']"
proof -
  let ?tk = "scenario_tokenizer\<lparr>sequence_length := PyInt 8\<rparr>"
  let ?a = "scenario_args\<lparr>arg_sequence_length := PyInt 8\<rparr>"
  have v: "arg_vocabulary ?a = Some [''A'', ''B'']" "[''A'', ''B''] \<noteq> []"
    by (simp_all add: scenario_args_def)
  have invoc: "set (regex_split [] (or_empty (bos_token ?tk) @ ''ABBA'' @ or_empty (eos_token ?tk)))
      \<subseteq> set (the (vocabulary ?tk))"
    unfolding ABBA_tokens by (simp add: scenario_tokenizer_def scenario_vocabulary_def)
  have nocut: "False \<or> \<not> truthy (sequence_length ?tk)
        \<or> (\<exists>n. dimension (sequence_length ?tk) = Some n
              \<and> length (regex_split [] (or_empty (bos_token ?tk) @ ''ABBA''
                    @ or_empty (eos_token ?tk))) \<le> n)"
    unfolding ABBA_tokens by simp
  show ?thesis
    by (rule tokenize_detokenize_round_trip[OF scenario_tokenizer_with_length v invoc ABBA_free
          nocut])
qed

text \<open>
  The claim as stated, for every string of in-vocabulary tokens, fails in two ways. With
  \<^verbatim>\<open>sequence_length=3\<close> the five tokens of \<^verbatim>\<open>"ABA"\<close> are cut to three and the round
  trip gives \<^verbatim>\<open>"AB"\<close>. And the padding token is in the vocabulary, so \<^verbatim>\<open>"[pad]"\<close> is
  made of in-vocabulary tokens, but the cleanup deletes it: the round trip gives the
  empty string.
\<close>

theorem round_trip_counterexample:
  "Tokenizer_init (scenario_args\<lparr>arg_sequence_length := PyInt 3\<rparr>)
     = (Inr (scenario_tokenizer\<lparr>sequence_length := PyInt 3\<rparr>), [CreateVocab, CreateLookupTables])
   \<and> tokenize (scenario_tokenizer\<lparr>sequence_length := PyInt 3\<rparr>) (Strings [''ABA'']) False
     = Inr [[2, 4, 5]]
   \<and> detokenize (scenario_tokenizer\<lparr>sequence_length := PyInt 3\<rparr>) [[2, 4, 5]] = Inr [''AB'']
   \<and> tokenize scenario_tokenizer (Strings [''[pad]'']) False = Inr [[2, 0, 3]]
   \<and> detokenize scenario_tokenizer [[2, 0, 3]] = Inr ['''']"
proof -
  have a: "tokenize (scenario_tokenizer\<lparr>sequence_length := PyInt 3\<rparr>) (Strings [''ABA'']) False
     = Inr [[2, 4, 5]]" by code_simp
  have b: "detokenize (scenario_tokenizer\<lparr>sequence_length := PyInt 3\<rparr>) [[2, 4, 5]] = Inr [''AB'']"
    by code_simp
  have c: "tokenize scenario_tokenizer (Strings [''[pad]'']) False = Inr [[2, 0, 3]]" by code_simp
  have d: "detokenize scenario_tokenizer [[2, 0, 3]] = Inr ['''']" by code_simp
  from scenario_tokenizer_with_length[of 3] a b c d show ?thesis by (intro conjI)
qed

end
